theory Spec2Isabelle
  imports Main
begin

section \<open>Legal search dashboard (p1.py): data model\<close>

text \<open>
  A result is the dictionary the fetch routines build: \<open>title\<close> and \<open>link\<close> are always
  present, \<open>details\<close> is present for Indian Kanoon and AustLII and absent for CanLII and
  Justia.
\<close>

record result =
  title :: string
  link :: string
  details :: "string option"

text \<open>
  \<open>st.session_state\<close>: a key that has not been assigned yet is \<open>None\<close>. The two count
  dictionaries map a page number to the number of results shown on that page.
\<close>

record session =
  keyword :: "string option"
  ik_page :: "int option"
  justia_page :: "int option"
  results_fetched :: "bool option"
  ik_results :: "result list option"
  austlii_results :: "result list option"
  canlii_results :: "result list option"
  justia_results :: "result list option"
  ik_counts :: "(int \<rightharpoonup> nat) option"
  justia_counts :: "(int \<rightharpoonup> nat) option"

definition empty_session :: session where
  "empty_session =
     \<lparr>keyword = None, ik_page = None, justia_page = None, results_fetched = None,
      ik_results = None, austlii_results = None, canlii_results = None,
      justia_results = None, ik_counts = None, justia_counts = None\<rparr>"

section \<open>Python built-ins used by the formatters\<close>

text \<open>\<open>str(n)\<close> for a non-negative integer: its decimal digits.\<close>

definition digit_char :: "nat \<Rightarrow> char" where
  "digit_char d = ''0123456789'' ! (d mod 10)"

function str_nat :: "nat \<Rightarrow> string" where
  "str_nat n = (if n < 10 then [digit_char n] else str_nat (n div 10) @ [digit_char (n mod 10)])"
  by pat_completeness auto
termination
  by (relation "measure id") auto

declare str_nat.simps [simp del]

definition str_int :: "int \<Rightarrow> string" where
  "str_int i = (if i < 0 then CHR ''-'' # str_nat (nat (- i)) else str_nat (nat i))"

text \<open>\<open>s.startswith(p)\<close>.\<close>

definition startswith :: "string \<Rightarrow> string \<Rightarrow> bool" where
  "startswith s p = (take (length p) s = p)"

text \<open>\<open>d.get(k, 0)\<close> on a count dictionary.\<close>

definition get0 :: "(int \<rightharpoonup> nat) \<Rightarrow> int \<Rightarrow> nat" where
  "get0 d k = (case d k of None \<Rightarrow> 0 | Some n \<Rightarrow> n)"

text \<open>\<open>sum(counts.get(page, 0) for page in range(1, current_page))\<close>.\<close>

definition cumulative_before :: "(int \<rightharpoonup> nat) \<Rightarrow> int \<Rightarrow> nat" where
  "cumulative_before counts current_page = sum_list (map (get0 counts) [1..current_page - 1])"

section \<open>Formatting functions\<close>

text \<open>
  One entry of \<open>format_results\<close> and of \<open>format_indian_kanoon_results\<close>: the numbered
  title, the link, and the details line when \<open>res.get("details")\<close> is truthy.
\<close>

definition entry_with_details :: "nat \<times> result \<Rightarrow> string" where
  "entry_with_details ir =
     (case ir of (i, res) \<Rightarrow>
        ''**'' @ str_nat i @ ''. '' @ title res @ ''**\<newline>- Link: '' @ link res @ ''\<newline>''
        @ (case details res of
             None \<Rightarrow> []
           | Some d \<Rightarrow> if d = [] then [] else ''- Details: '' @ d @ ''\<newline>'')
        @ ''\<newline>'')"

text \<open>One entry of \<open>format_justia_results\<close>: no details line.\<close>

definition entry_plain :: "nat \<times> result \<Rightarrow> string" where
  "entry_plain ir =
     (case ir of (i, res) \<Rightarrow>
        ''**'' @ str_nat i @ ''. '' @ title res @ ''**\<newline>- Link: '' @ link res
        @ ''\<newline>\<newline>'')"

text \<open>
  \<open>format_results(results, source_name)\<close>: the generic formatter, which restarts the
  numbering at 1 (\<open>enumerate(results, 1)\<close>).
\<close>

definition format_results :: "result list \<Rightarrow> string \<Rightarrow> string" where
  "format_results results source_name =
     (let formatted = ''### '' @ source_name @ '' Results:\<newline>\<newline>'' in
      if results = [] then formatted @ ''No results found.\<newline>''
      else formatted @ concat (map entry_with_details (enumerate 1 results)))"

text \<open>
  \<open>format_indian_kanoon_results(results, current_page)\<close>: returns the text and the
  session state, in which the count of the current page has been stored.
\<close>

definition format_indian_kanoon_results :: "result list \<Rightarrow> int \<Rightarrow> session \<Rightarrow> string \<times> session" where
  "format_indian_kanoon_results results current_page st =
     (if results = [] then (''No results found.'', st)
      else
        let counts = (case ik_counts st of None \<Rightarrow> Map.empty | Some c \<Rightarrow> c);
            counts' = counts(current_page \<mapsto> length results);
            cumulative = cumulative_before counts' current_page;
            start_num = cumulative + 1;
            formatted = ''### Indian Kanoon Results (Page '' @ str_int current_page @ '')\<newline>\<newline>''
        in (formatted @ concat (map entry_with_details (enumerate start_num results)),
            st\<lparr>ik_counts := Some counts'\<rparr>))"

text \<open>\<open>format_justia_results(results, current_page)\<close>.\<close>

definition format_justia_results :: "result list \<Rightarrow> int \<Rightarrow> session \<Rightarrow> string \<times> session" where
  "format_justia_results results current_page st =
     (if results = [] then (''No results found.'', st)
      else
        let counts = (case justia_counts st of None \<Rightarrow> Map.empty | Some c \<Rightarrow> c);
            counts' = counts(current_page \<mapsto> length results);
            cumulative = cumulative_before counts' current_page;
            start_num = cumulative + 1;
            formatted = ''### Justia Results (Page '' @ str_int current_page @ '')\<newline>\<newline>''
        in (formatted @ concat (map entry_plain (enumerate start_num results)),
            st\<lparr>justia_counts := Some counts'\<rparr>))"

section \<open>The outside world: HTTP, the markup parser, the browser\<close>

text \<open>
  The exceptions that can leave a function of the script: a failed HTTP request
  (\<open>requests.exceptions.RequestException\<close>), a failed browser call (selenium's
  \<open>WebDriverException\<close> and its subclasses), a missing attribute of a tag (\<open>KeyError\<close>),
  a call of something that is not callable (\<open>TypeError\<close>) and a missing key of the
  session state (\<open>AttributeError\<close>).
\<close>

datatype error =
  RequestException string
| WebDriverException string
| KeyError string
| TypeError string
| AttributeError string

text \<open>The calls made on the Edge web driver, in the order a fetch routine makes them.\<close>

datatype driver_call =
  NewDriver "string list"
| Get string
| ExecuteScript string "string list"
| WaitPresence nat string
| WaitClickable nat string
| Click string
| PageSource
| Quit

text \<open>
  What a run of the script does that can be observed: what it renders on the dashboard
  (\<open>st.title\<close>, \<open>st.write\<close>, \<open>st.markdown\<close>, the \<open>markdown\<close> of a placeholder created
  with \<open>st.empty()\<close>, \<open>st.error\<close>) and what it asks of the network (\<open>requests.get\<close>
  with its timeout) and of the browser.
\<close>

datatype event =
  Title string
| Write string
| Markdown string
| Placeholder string string
| Error string
| HttpGet string "nat option"
| Browser driver_call

text \<open>\<open>requests.get\<close> either raises or returns a response with a status code and a body.\<close>

datatype http_outcome =
  RequestFailed string
| Response int string

text \<open>
  What the script reads from the parsed document, per element:
  \<^item> Indian Kanoon, each \<open>div.result_title\<close>: its first anchor with an \<open>href\<close> (text and
    \<open>href\<close>), if any, and the text of the next sibling \<open>div\<close>, if any;
  \<^item> AustLII, each anchor with an \<open>href\<close>: the \<open>href\<close>, the text, the following siblings
    and the text of the next \<open>p.meta\<close>, if any;
  \<^item> CanLII and Justia, each selected anchor: the text and the \<open>href\<close>, if it has one.
\<close>

record ik_title =
  ik_anchor :: "(string \<times> string) option"
  ik_next_div :: "string option"

text \<open>
  A sibling node as the loop over \<open>next_sibling\<close> sees it: a string of the document, or a
  tag.
\<close>

datatype sibling = Text string | Tag

record austlii_anchor =
  al_href :: string
  al_text :: string
  al_siblings :: "sibling list"
  al_meta :: "string option"

record link_anchor =
  la_text :: string
  la_href :: "string option"

text \<open>
  One browser session as the world plays it: the index of the first driver call that
  raises (none if every call succeeds), the text of that exception, the page source the
  driver would return, and whether \<open>driver.quit()\<close> raises.
\<close>

record browser_run =
  fail_step :: "nat option"
  fail_text :: string
  page_source :: string
  quit_fails :: "string option"

text \<open>
  The environment of one run of the script. \<open>quote_plus\<close> is urllib's;
  \<open>http_error_text\<close> is the text of the \<open>HTTPError\<close> that \<open>raise_for_status\<close> raises
  for a status code and URL; the four selectors are the markup parser's answers on a
  document; the two browser functions give the session played for CanLII (by keyword)
  and for Justia (by URL).
\<close>

record env =
  quote_plus :: "string \<Rightarrow> string"
  http_get :: "string \<Rightarrow> http_outcome"
  http_error_text :: "int \<Rightarrow> string \<Rightarrow> string"
  ik_result_titles :: "string \<Rightarrow> ik_title list"
  austlii_anchors :: "string \<Rightarrow> austlii_anchor list"
  canlii_anchors :: "string \<Rightarrow> link_anchor list"
  justia_anchors :: "string \<Rightarrow> link_anchor list"
  canlii_browser :: "string \<Rightarrow> browser_run"
  justia_browser :: "string \<Rightarrow> browser_run"

section \<open>Search functions\<close>

subsection \<open>Indian Kanoon\<close>

definition ik_search_url :: "env \<Rightarrow> string \<Rightarrow> int \<Rightarrow> string" where
  "ik_search_url e kw page =
     (let encoded_keyword = quote_plus e kw in
      if page = 1 then ''https://indiankanoon.org/search/?formInput='' @ encoded_keyword
      else ''https://indiankanoon.org/search/?formInput='' @ encoded_keyword
           @ ''&pagenum='' @ str_int (page - 1))"

fun ik_records :: "ik_title list \<Rightarrow> result list" where
  "ik_records [] = []"
| "ik_records (r # rs) =
     (case ik_anchor r of
        None \<Rightarrow> ik_records rs
      | Some (text, href) \<Rightarrow>
          \<lparr>title = text,
           link = (if \<not> startswith href ''http'' then ''https://indiankanoon.org'' @ href else href),
           details = Some (case ik_next_div r of None \<Rightarrow> [] | Some d \<Rightarrow> d)\<rparr>
          # ik_records rs)"

definition fetch_indian_kanoon_results :: "env \<Rightarrow> string \<Rightarrow> int \<Rightarrow> event list \<times> (error + result list)" where
  "fetch_indian_kanoon_results e kw page =
     (let search_url = ik_search_url e kw page in
      case http_get e search_url of
        RequestFailed msg \<Rightarrow> ([HttpGet search_url None], Inl (RequestException msg))
      | Response status_code content \<Rightarrow>
          if status_code \<noteq> 200 then ([HttpGet search_url None], Inr [])
          else ([HttpGet search_url None], Inr (ik_records (ik_result_titles e content))))"

subsection \<open>AustLII\<close>

text \<open>\<open>p in s\<close> on strings.\<close>

definition contains :: "string \<Rightarrow> string \<Rightarrow> bool" where
  "contains s p = list_ex (\<lambda>i. take (length p) (drop i s) = p) [0..<Suc (length s)]"

definition austlii_search_url :: "env \<Rightarrow> string \<Rightarrow> string" where
  "austlii_search_url e kw =
     ''https://www.austlii.edu.au/cgi-bin/sinosrch.cgi?method=auto&query='' @ quote_plus e kw"

definition austlii_unavailable :: result where
  "austlii_unavailable =
     \<lparr>title = ''AustLII'', link = [],
      details = Some ''AustLII results are currently unavailable due to a connection error.''\<rparr>"

definition austlii_no_results :: result where
  "austlii_no_results =
     \<lparr>title = ''AustLII'', link = [], details = Some ''No results found on AustLII.''\<rparr>"

text \<open>\<open>s.strip()\<close>: the string without its leading and trailing whitespace.\<close>

definition is_space :: "char \<Rightarrow> bool" where
  "is_space c = (c \<in> set [CHR '' '', CHR 0x09, CHR 0x0A, CHR 0x0B, CHR 0x0C, CHR 0x0D,
                            CHR 0x1C, CHR 0x1D, CHR 0x1E, CHR 0x1F])"

definition strip :: "string \<Rightarrow> string" where
  "strip s = rev (dropWhile is_space (rev (dropWhile is_space s)))"

text \<open>
  The \<open>while next_text\<close> loop that looks for a title among the following siblings. An
  empty string ends the loop, and the title stays as it was when no sibling gives one.
  A tag is true and answers \<open>hasattr(next_text, "strip")\<close> with true, since a tag looks an
  unknown attribute up as a child tag; that lookup gives \<open>None\<close>, and calling it raises
  \<open>TypeError\<close>.
\<close>

fun sibling_title :: "sibling list \<Rightarrow> string \<Rightarrow> error + string" where
  "sibling_title [] t = Inr t"
| "sibling_title (Text s # ns) t =
     (if s = [] then Inr t
      else if strip s \<noteq> [] then Inr (strip s)
      else sibling_title ns t)"
| "sibling_title (Tag # ns) t = Inl (TypeError ''NoneType object is not callable'')"

fun austlii_records :: "austlii_anchor list \<Rightarrow> error + result list" where
  "austlii_records [] = Inr []"
| "austlii_records (a # as) =
     (let href = al_href a in
      if \<not> contains href ''/cgi-bin/viewdoc/'' then austlii_records as
      else
        case (if al_text a = [] then sibling_title (al_siblings a) (al_text a) else Inr (al_text a)) of
          Inl err \<Rightarrow> Inl err
        | Inr t \<Rightarrow>
            (case austlii_records as of
               Inl err \<Rightarrow> Inl err
             | Inr rs \<Rightarrow>
                 Inr (\<lparr>title = t,
                       link = (if startswith href ''http'' then href
                               else ''https://www.austlii.edu.au'' @ href),
                       details = Some (case al_meta a of None \<Rightarrow> [] | Some m \<Rightarrow> m)\<rparr> # rs)))"

definition fetch_austlii_search_results :: "env \<Rightarrow> string \<Rightarrow> event list \<times> (error + result list)" where
  "fetch_austlii_search_results e kw =
     (let search_url = austlii_search_url e kw in
      case http_get e search_url of
        RequestFailed msg \<Rightarrow>
          ([HttpGet search_url (Some 20), Error (''Error fetching AustLII results: '' @ msg)],
           Inr [austlii_unavailable])
      | Response status_code content \<Rightarrow>
          if 400 \<le> status_code \<and> status_code < 600 then
            ([HttpGet search_url (Some 20),
              Error (''Error fetching AustLII results: '' @ http_error_text e status_code search_url)],
             Inr [austlii_unavailable])
          else
            case austlii_records (austlii_anchors e content) of
              Inl err \<Rightarrow> ([HttpGet search_url (Some 20)], Inl err)
            | Inr results \<Rightarrow>
                ([HttpGet search_url (Some 20)],
                 Inr (if results = [] then [austlii_no_results] else results)))"

subsection \<open>The browser session shared by CanLII and Justia\<close>

text \<open>
  Both routines run their driver calls inside \<open>try\<close>, catch \<open>Exception\<close> with an
  \<open>st.error\<close>, and quit the driver in \<open>finally\<close> when it is not \<open>None\<close>. The first
  call of the list creates the driver. The result is the page source (empty when a call
  raised), or the exception of \<open>driver.quit()\<close>, which nothing catches.
\<close>

definition attempted :: "driver_call list \<Rightarrow> nat option \<Rightarrow> driver_call list" where
  "attempted calls fail = (case fail of None \<Rightarrow> calls | Some k \<Rightarrow> take (Suc k) calls)"

definition raised_in :: "driver_call list \<Rightarrow> nat option \<Rightarrow> bool" where
  "raised_in calls fail = (case fail of None \<Rightarrow> False | Some k \<Rightarrow> k < length calls)"

definition driver_created :: "browser_run \<Rightarrow> bool" where
  "driver_created run = (fail_step run \<noteq> Some 0)"

definition browser_session :: "string \<Rightarrow> driver_call list \<Rightarrow> browser_run \<Rightarrow> event list \<times> (error + string)" where
  "browser_session source calls run =
     (let failed = raised_in calls (fail_step run);
          html = (if failed then [] else page_source run);
          tried = map Browser (attempted calls (fail_step run));
          caught = (if failed then [Error (''Error fetching '' @ source @ '' results: '' @ fail_text run)]
                    else [])
      in if driver_created run then
           (case quit_fails run of
              None \<Rightarrow> (tried @ caught @ [Browser Quit], Inr html)
            | Some msg \<Rightarrow> (tried @ caught @ [Browser Quit], Inl (WebDriverException msg)))
         else (tried @ caught, Inr html))"

definition edge_options :: "string list" where
  "edge_options = [''--headless'', ''--disable-gpu'']"

subsection \<open>CanLII\<close>

text \<open>The script that hides the cookie consent blocker, and the selector of the search button.\<close>

definition hide_cookie_blocker :: string where
  "hide_cookie_blocker =
     ''if(document.getElementById('' @ [CHR 0x27] @ ''cookieConsentBlocker'' @ [CHR 0x27] @ '')) { ''
     @ ''document.getElementById('' @ [CHR 0x27] @ ''cookieConsentBlocker'' @ [CHR 0x27]
     @ '').style.display = '' @ [CHR 0x27] @ ''none'' @ [CHR 0x27] @ ''; }''"

definition start_a_search :: string where
  "start_a_search = ''button[aria-label='' @ [CHR 0x27] @ ''Start a search'' @ [CHR 0x27] @ '']''"

definition canlii_calls :: "string \<Rightarrow> driver_call list" where
  "canlii_calls kw =
     [NewDriver edge_options,
      Get ''https://www.canlii.org/en/'',
      ExecuteScript hide_cookie_blocker [],
      WaitPresence 20 ''#textInput'',
      ExecuteScript ''arguments[0].value = arguments[1];'' [''#textInput'', kw],
      WaitClickable 20 start_a_search,
      Click start_a_search,
      WaitPresence 40 ''a[data-result-uuid]'',
      PageSource]"

text \<open>\<open>a["href"]\<close> raises \<open>KeyError\<close> on an anchor without the attribute.\<close>

fun canlii_records :: "link_anchor list \<Rightarrow> error + result list" where
  "canlii_records [] = Inr []"
| "canlii_records (a # as) =
     (case la_href a of
        None \<Rightarrow> Inl (KeyError ''href'')
      | Some href \<Rightarrow>
          (case canlii_records as of
             Inl err \<Rightarrow> Inl err
           | Inr rs \<Rightarrow>
               Inr (\<lparr>title = la_text a,
                     link = (if \<not> startswith href ''http'' then ''https://www.canlii.org'' @ href else href),
                     details = None\<rparr> # rs)))"

definition fetch_canlii_search_results :: "env \<Rightarrow> string \<Rightarrow> event list \<times> (error + result list)" where
  "fetch_canlii_search_results e kw =
     (case browser_session ''CanLII'' (canlii_calls kw) (canlii_browser e kw) of
        (evs, Inl err) \<Rightarrow> (evs, Inl err)
      | (evs, Inr html) \<Rightarrow> (evs, canlii_records (canlii_anchors e html)))"

subsection \<open>Justia\<close>

definition justia_search_url :: "env \<Rightarrow> string \<Rightarrow> int \<Rightarrow> string" where
  "justia_search_url e kw page =
     ''https://www.justia.com/search?q='' @ quote_plus e kw
     @ ''&cx=012624009653992735869%3Acyxxdwappru&start='' @ str_int ((page - 1) * 10)"

definition justia_calls :: "string \<Rightarrow> driver_call list" where
  "justia_calls search_url =
     [NewDriver edge_options, Get search_url, WaitPresence 20 ''gsc-webResult'', PageSource]"

text \<open>\<open>result.get("href", "")\<close>: the attribute as it is, or the empty string.\<close>

fun justia_records :: "link_anchor list \<Rightarrow> result list" where
  "justia_records [] = []"
| "justia_records (a # as) =
     \<lparr>title = la_text a, link = (case la_href a of None \<Rightarrow> [] | Some href \<Rightarrow> href), details = None\<rparr>
     # justia_records as"

definition fetch_justia_search_results :: "env \<Rightarrow> string \<Rightarrow> int \<Rightarrow> event list \<times> (error + result list)" where
  "fetch_justia_search_results e kw page =
     (case browser_session ''Justia'' (justia_calls (justia_search_url e kw page))
             (justia_browser e (justia_search_url e kw page)) of
        (evs, Inl err) \<Rightarrow> (evs, Inl err)
      | (evs, Inr html) \<Rightarrow> (evs, Inr (justia_records (justia_anchors e html))))"

section \<open>The dashboard script\<close>

text \<open>
  The widgets of one run: the four checkboxes, the text field, and for each button
  (named by its \<open>key\<close>) whether it was clicked.
\<close>

record ui =
  search_ik :: bool
  search_al :: bool
  search_cl :: bool
  search_justia :: bool
  keyword_input :: string
  search_button :: bool
  prev_ik :: bool
  next_ik :: bool
  prev_justia :: bool
  next_justia :: bool

text \<open>
  A statement of the script takes the session state and gives what it rendered and asked
  of the world, the session state it leaves, and the exception it raised, if any. The
  session state keeps what was written before an exception.
\<close>

type_synonym stmt = "session \<Rightarrow> event list \<times> session \<times> error option"

definition skip :: stmt where
  "skip st = ([], st, None)"

definition emit :: "event \<Rightarrow> stmt" where
  "emit ev st = ([ev], st, None)"

definition assign :: "(session \<Rightarrow> session) \<Rightarrow> stmt" where
  "assign f st = ([], f st, None)"

definition seq :: "stmt \<Rightarrow> stmt \<Rightarrow> stmt" where
  "seq a b st =
     (case a st of
        (evs, st', Some err) \<Rightarrow> (evs, st', Some err)
      | (evs, st', None) \<Rightarrow> (case b st' of (evs', st'', r) \<Rightarrow> (evs @ evs', st'', r)))"

fun block :: "stmt list \<Rightarrow> stmt" where
  "block [] = skip"
| "block (a # as) = seq a (block as)"

text \<open>Reading \<open>st.session_state.name\<close>: \<open>AttributeError\<close> when the key is not set.\<close>

definition attr :: "string \<Rightarrow> (session \<Rightarrow> 'a option) \<Rightarrow> ('a \<Rightarrow> stmt) \<Rightarrow> stmt" where
  "attr name field body st =
     (case field st of
        None \<Rightarrow> ([], st, Some (AttributeError name))
      | Some v \<Rightarrow> body v st)"

text \<open>Storing the result list of a fetch routine, or leaving with its exception.\<close>

definition store :: "(result list \<Rightarrow> session \<Rightarrow> session) \<Rightarrow> event list \<times> (error + result list) \<Rightarrow> stmt" where
  "store upd fetched st =
     (case fetched of
        (evs, Inl err) \<Rightarrow> (evs, st, Some err)
      | (evs, Inr rs) \<Rightarrow> (evs, upd rs st, None))"

text \<open>The initialisation of the session state variables.\<close>

definition init_session :: stmt where
  "init_session =
     block
       [assign (\<lambda>st. if keyword st = None then st\<lparr>keyword := Some []\<rparr> else st),
        assign (\<lambda>st. if ik_page st = None then st\<lparr>ik_page := Some 1\<rparr> else st),
        assign (\<lambda>st. if justia_page st = None then st\<lparr>justia_page := Some 1\<rparr> else st),
        assign (\<lambda>st. if results_fetched st = None then st\<lparr>results_fetched := Some False\<rparr> else st)]"

text \<open>
  \<open>st.session_state.ik_results = fetch_indian_kanoon_results(keyword, ik_page)\<close>,
  and the same for Justia.
\<close>

definition fetch_ik :: "env \<Rightarrow> stmt" where
  "fetch_ik e =
     attr ''keyword'' keyword (\<lambda>kw.
     attr ''ik_page'' ik_page (\<lambda>page.
       store (\<lambda>rs st. st\<lparr>ik_results := Some rs\<rparr>) (fetch_indian_kanoon_results e kw page)))"

definition fetch_justia :: "env \<Rightarrow> stmt" where
  "fetch_justia e =
     attr ''keyword'' keyword (\<lambda>kw.
     attr ''justia_page'' justia_page (\<lambda>page.
       store (\<lambda>rs st. st\<lparr>justia_results := Some rs\<rparr>) (fetch_justia_search_results e kw page)))"

text \<open>
  Rendering \<open>format_indian_kanoon_results(ik_results, ik_page)\<close> with \<open>st.markdown\<close> or
  in a placeholder, and the same for Justia.
\<close>

definition render_ik :: "(string \<Rightarrow> event) \<Rightarrow> stmt" where
  "render_ik widget =
     attr ''ik_results'' ik_results (\<lambda>rs.
     attr ''ik_page'' ik_page (\<lambda>page st.
       case format_indian_kanoon_results rs page st of (text, st') \<Rightarrow> ([widget text], st', None)))"

definition render_justia :: "(string \<Rightarrow> event) \<Rightarrow> stmt" where
  "render_justia widget =
     attr ''justia_results'' justia_results (\<lambda>rs.
     attr ''justia_page'' justia_page (\<lambda>page st.
       case format_justia_results rs page st of (text, st') \<Rightarrow> ([widget text], st', None)))"

text \<open>The body of \<open>if st.button("Search")\<close>, source by source.\<close>

definition search_ik_block :: "ui \<Rightarrow> env \<Rightarrow> stmt" where
  "search_ik_block u e =
     (if search_ik u then block [assign (\<lambda>st. st\<lparr>ik_page := Some 1\<rparr>), fetch_ik e]
      else assign (\<lambda>st. st\<lparr>ik_results := Some []\<rparr>))"

definition search_al_block :: "ui \<Rightarrow> env \<Rightarrow> stmt" where
  "search_al_block u e =
     (if search_al u then
        attr ''keyword'' keyword (\<lambda>kw.
          store (\<lambda>rs st. st\<lparr>austlii_results := Some rs\<rparr>) (fetch_austlii_search_results e kw))
      else assign (\<lambda>st. st\<lparr>austlii_results := Some []\<rparr>))"

definition search_cl_block :: "ui \<Rightarrow> env \<Rightarrow> stmt" where
  "search_cl_block u e =
     (if search_cl u then
        attr ''keyword'' keyword (\<lambda>kw.
          store (\<lambda>rs st. st\<lparr>canlii_results := Some rs\<rparr>) (fetch_canlii_search_results e kw))
      else assign (\<lambda>st. st\<lparr>canlii_results := Some []\<rparr>))"

definition search_justia_block :: "ui \<Rightarrow> env \<Rightarrow> stmt" where
  "search_justia_block u e =
     (if search_justia u then block [assign (\<lambda>st. st\<lparr>justia_page := Some 1\<rparr>), fetch_justia e]
      else assign (\<lambda>st. st\<lparr>justia_results := Some []\<rparr>))"

definition on_search :: "ui \<Rightarrow> env \<Rightarrow> stmt" where
  "on_search u e =
     block
       [assign (\<lambda>st. st\<lparr>keyword := Some (keyword_input u)\<rparr>),
        search_ik_block u e,
        search_al_block u e,
        search_cl_block u e,
        search_justia_block u e,
        assign (\<lambda>st. st\<lparr>results_fetched := Some True\<rparr>),
        assign (\<lambda>st. st\<lparr>ik_counts := Some Map.empty\<rparr>),
        assign (\<lambda>st. st\<lparr>justia_counts := Some Map.empty\<rparr>)]"

text \<open>The display of each source under \<open>if st.session_state.results_fetched\<close>.\<close>

definition display_ik :: "ui \<Rightarrow> env \<Rightarrow> stmt" where
  "display_ik u e =
     (if search_ik u then
        block
          [render_ik Markdown,
           (if prev_ik u then
              attr ''ik_page'' ik_page (\<lambda>page.
                if page > 1 then
                  block [assign (\<lambda>st. st\<lparr>ik_page := Some (page - 1)\<rparr>), fetch_ik e,
                         render_ik (Placeholder ''ik_container'')]
                else skip)
            else skip),
           attr ''ik_page'' ik_page (\<lambda>page. emit (Write (''Page '' @ str_int page))),
           (if next_ik u then
              attr ''ik_page'' ik_page (\<lambda>page.
                block [assign (\<lambda>st. st\<lparr>ik_page := Some (page + 1)\<rparr>), fetch_ik e,
                       render_ik (Placeholder ''ik_container'')])
            else skip),
           emit (Markdown ''---'')]
      else skip)"

definition display_al :: "ui \<Rightarrow> stmt" where
  "display_al u =
     (if search_al u then
        block
          [attr ''austlii_results'' austlii_results (\<lambda>rs. emit (Markdown (format_results rs ''AustLII''))),
           emit (Markdown ''---'')]
      else skip)"

definition display_cl :: "ui \<Rightarrow> stmt" where
  "display_cl u =
     (if search_cl u then
        block
          [attr ''canlii_results'' canlii_results (\<lambda>rs. emit (Markdown (format_results rs ''CanLII''))),
           emit (Markdown ''---'')]
      else skip)"

definition display_justia :: "ui \<Rightarrow> env \<Rightarrow> stmt" where
  "display_justia u e =
     (if search_justia u then
        block
          [emit (Markdown ''### Justia Results''),
           render_justia (Placeholder ''justia_container''),
           (if prev_justia u then
              attr ''justia_page'' justia_page (\<lambda>page.
                if page > 1 then
                  block [assign (\<lambda>st. st\<lparr>justia_page := Some (page - 1)\<rparr>), fetch_justia e,
                         render_justia (Placeholder ''justia_container'')]
                else skip)
            else skip),
           attr ''justia_page'' justia_page (\<lambda>page. emit (Write (''Page '' @ str_int page))),
           (if next_justia u then
              attr ''justia_page'' justia_page (\<lambda>page.
                block [assign (\<lambda>st. st\<lparr>justia_page := Some (page + 1)\<rparr>), fetch_justia e,
                       render_justia (Placeholder ''justia_container'')])
            else skip)]
      else skip)"

definition display :: "ui \<Rightarrow> env \<Rightarrow> stmt" where
  "display u e =
     attr ''results_fetched'' results_fetched (\<lambda>fetched.
       if fetched then block [display_ik u e, display_al u, display_cl u, display_justia u e]
       else skip)"

text \<open>\<open>main()\<close>: one run of the script, which Streamlit starts again on every interaction.\<close>

definition main :: "ui \<Rightarrow> env \<Rightarrow> stmt" where
  "main u e =
     block
       [emit (Title ''Legal Search Dashboard''),
        emit (Write ''This dashboard searches multiple legal databases for your query.''),
        init_session,
        (if search_button u then on_search u e else skip),
        display u e]"

text \<open>
  The session states of a browser session: the empty one, and every state a run of the
  script leaves, whether it ended normally or with an exception.
\<close>

inductive reachable :: "session \<Rightarrow> bool" where
  start: "reachable empty_session"
| run: "reachable st \<Longrightarrow> main u e st = (evs, st', r) \<Longrightarrow> reachable st'"

section \<open>Notions used to state the properties\<close>

text \<open>The count dictionaries as the formatters read them: empty when not yet created.\<close>

definition stored_ik :: "session \<Rightarrow> int \<rightharpoonup> nat" where
  "stored_ik st = (case ik_counts st of None \<Rightarrow> Map.empty | Some c \<Rightarrow> c)"

definition stored_justia :: "session \<Rightarrow> int \<rightharpoonup> nat" where
  "stored_justia st = (case justia_counts st of None \<Rightarrow> Map.empty | Some c \<Rightarrow> c)"

text \<open>Both pagination counters, where set, are at least 1.\<close>

definition pages_ok :: "session \<Rightarrow> bool" where
  "pages_ok st =
     ((case ik_page st of None \<Rightarrow> True | Some p \<Rightarrow> 1 \<le> p)
      \<and> (case justia_page st of None \<Rightarrow> True | Some p \<Rightarrow> 1 \<le> p))"

text \<open>
  \<open>always P a Q\<close>: from a state with \<open>P\<close>, statement \<open>a\<close> leaves a state with \<open>Q\<close>, also
  when it raises. \<open>returns P a Q\<close>: the same for the runs of \<open>a\<close> that raise nothing.
\<close>

definition always :: "(session \<Rightarrow> bool) \<Rightarrow> stmt \<Rightarrow> (session \<Rightarrow> bool) \<Rightarrow> bool" where
  "always P a Q = (\<forall>st evs st' r. P st \<longrightarrow> a st = (evs, st', r) \<longrightarrow> Q st')"

definition returns :: "(session \<Rightarrow> bool) \<Rightarrow> stmt \<Rightarrow> (session \<Rightarrow> bool) \<Rightarrow> bool" where
  "returns P a Q = (\<forall>st evs st'. P st \<longrightarrow> a st = (evs, st', None) \<longrightarrow> Q st')"

text \<open>\<open>keeps X a\<close>: statement \<open>a\<close> leaves the part \<open>X\<close> of the session state as it was.\<close>

definition keeps :: "(session \<Rightarrow> 'a) \<Rightarrow> stmt \<Rightarrow> bool" where
  "keeps X a = (\<forall>st evs st' r. a st = (evs, st', r) \<longrightarrow> X st' = X st)"

text \<open>
  \<open>confined E R a\<close>: every event of statement \<open>a\<close> satisfies \<open>E\<close>, and an exception it
  raises satisfies \<open>R\<close>.
\<close>

definition confined :: "(event \<Rightarrow> bool) \<Rightarrow> (error \<Rightarrow> bool) \<Rightarrow> stmt \<Rightarrow> bool" where
  "confined E R a =
     (\<forall>st evs st' r. a st = (evs, st', r) \<longrightarrow> list_all E evs \<and> (\<forall>err. r = Some err \<longrightarrow> R err))"

text \<open>
  What the script shows whatever is selected: the title and the introduction.
\<close>

fun shown_always :: "event \<Rightarrow> bool" where
  "shown_always (Title t) = (t = ''Legal Search Dashboard'')"
| "shown_always (Write t) = (t = ''This dashboard searches multiple legal databases for your query.'')"
| "shown_always ev = False"

text \<open>
  The events of each source, by what they are: its request (Indian Kanoon asks without
  timeout, AustLII with 20 seconds), its driver calls, its error message, its block of
  results or its \<open>No results found\<close> message, its page indicator and its separator.
\<close>

fun ik_event :: "event \<Rightarrow> bool" where
  "ik_event (HttpGet url timeout) = (timeout = None)"
| "ik_event (Markdown t) =
     (t = ''No results found.'' \<or> startswith t ''### Indian Kanoon Results (Page '' \<or> t = ''---'')"
| "ik_event (Placeholder c t) =
     (c = ''ik_container''
      \<and> (t = ''No results found.'' \<or> startswith t ''### Indian Kanoon Results (Page ''))"
| "ik_event (Write t) = startswith t ''Page ''"
| "ik_event ev = False"

fun al_event :: "event \<Rightarrow> bool" where
  "al_event (HttpGet url timeout) = (timeout = Some 20)"
| "al_event (Error t) = startswith t ''Error fetching AustLII results: ''"
| "al_event (Markdown t) = (startswith t ''### AustLII Results:'' \<or> t = ''---'')"
| "al_event ev = False"

fun cl_call :: "driver_call \<Rightarrow> bool" where
  "cl_call (Get url) = (url = ''https://www.canlii.org/en/'')"
| "cl_call (WaitPresence n sel) = (sel = ''#textInput'' \<or> sel = ''a[data-result-uuid]'')"
| "cl_call c = True"

fun cl_event :: "event \<Rightarrow> bool" where
  "cl_event (Browser c) = cl_call c"
| "cl_event (Error t) = startswith t ''Error fetching CanLII results: ''"
| "cl_event (Markdown t) = (startswith t ''### CanLII Results:'' \<or> t = ''---'')"
| "cl_event ev = False"

fun justia_call :: "driver_call \<Rightarrow> bool" where
  "justia_call (NewDriver opts) = True"
| "justia_call (Get url) = startswith url ''https://www.justia.com/search?q=''"
| "justia_call (WaitPresence n sel) = (sel = ''gsc-webResult'')"
| "justia_call PageSource = True"
| "justia_call Quit = True"
| "justia_call c = False"

fun justia_event :: "event \<Rightarrow> bool" where
  "justia_event (Browser c) = justia_call c"
| "justia_event (Error t) = startswith t ''Error fetching Justia results: ''"
| "justia_event (Markdown t) = (t = ''### Justia Results'')"
| "justia_event (Placeholder c t) =
     (c = ''justia_container''
      \<and> (t = ''No results found.'' \<or> startswith t ''### Justia Results (Page ''))"
| "justia_event (Write t) = startswith t ''Page ''"
| "justia_event ev = False"

text \<open>The exceptions of each source, and those of the keys that every run reads.\<close>

fun common_error :: "error \<Rightarrow> bool" where
  "common_error (AttributeError key) = (key = ''keyword'' \<or> key = ''results_fetched'')"
| "common_error err = False"

fun ik_error :: "error \<Rightarrow> bool" where
  "ik_error (RequestException msg) = True"
| "ik_error (AttributeError key) = (key = ''ik_results'' \<or> key = ''ik_page'')"
| "ik_error err = False"

fun al_error :: "error \<Rightarrow> bool" where
  "al_error (TypeError msg) = True"
| "al_error (AttributeError key) = (key = ''austlii_results'')"
| "al_error err = False"

fun cl_error :: "error \<Rightarrow> bool" where
  "cl_error (WebDriverException msg) = True"
| "cl_error (KeyError key) = True"
| "cl_error (AttributeError key) = (key = ''canlii_results'')"
| "cl_error err = False"

fun justia_error :: "error \<Rightarrow> bool" where
  "justia_error (WebDriverException msg) = True"
| "justia_error (AttributeError key) = (key = ''justia_results'' \<or> key = ''justia_page'')"
| "justia_error err = False"

text \<open>An event, or an exception, of the run belongs to what is always shown or to a selected source.\<close>

definition of_selected :: "ui \<Rightarrow> event \<Rightarrow> bool" where
  "of_selected u ev =
     (shown_always ev \<or> search_ik u \<and> ik_event ev \<or> search_al u \<and> al_event ev
      \<or> search_cl u \<and> cl_event ev \<or> search_justia u \<and> justia_event ev)"

definition raised_by_selected :: "ui \<Rightarrow> error \<Rightarrow> bool" where
  "raised_by_selected u err =
     (common_error err \<or> search_ik u \<and> ik_error err \<or> search_al u \<and> al_error err
      \<or> search_cl u \<and> cl_error err \<or> search_justia u \<and> justia_error err)"

text \<open>The four sources and the fetch routine of each.\<close>

datatype source = IndianKanoon | AustLII | CanLII | Justia





fun is_error :: "event \<Rightarrow> bool" where
  "is_error (Error msg) = True"
| "is_error ev = False"



section \<open>Sample inputs\<close>

definition sample_result :: "nat \<Rightarrow> result" where
  "sample_result n = \<lparr>title = ''Case '' @ str_nat n, link = ''https://indiankanoon.org/doc/'' @ str_nat n,
                      details = None\<rparr>"

definition sample_ui :: ui where
  "sample_ui =
     \<lparr>search_ik = True, search_al = True, search_cl = True, search_justia = True,
      keyword_input = ''contract law'', search_button = True,
      prev_ik = False, next_ik = False, prev_justia = False, next_justia = False\<rparr>"

definition nothing_selected :: ui where
  "nothing_selected =
     sample_ui\<lparr>search_ik := False, search_al := False, search_cl := False, search_justia := False\<rparr>"

text \<open>
  A world in which every request fails: \<open>requests.get\<close> raises, and the browser times
  out waiting for the first element.
\<close>

definition offline :: env where
  "offline =
     \<lparr>quote_plus = map (\<lambda>c. if c = CHR '' '' then CHR ''+'' else c),
      http_get = (\<lambda>url. RequestFailed ''connection refused''),
      http_error_text = (\<lambda>status url. str_int status @ '' Error for url: '' @ url),
      ik_result_titles = (\<lambda>doc. []),
      austlii_anchors = (\<lambda>doc. []),
      canlii_anchors = (\<lambda>doc. []),
      justia_anchors = (\<lambda>doc. []),
      canlii_browser = (\<lambda>kw. \<lparr>fail_step = Some 3, fail_text = ''timeout'', page_source = [],
                               quit_fails = None\<rparr>),
      justia_browser = (\<lambda>url. \<lparr>fail_step = Some 2, fail_text = ''timeout'', page_source = [],
                                quit_fails = None\<rparr>)\<rparr>"

text \<open>
  A world in which every source answers: each page holds one result with a relative
  link (for Justia, an absolute one).
\<close>

definition online :: env where
  "online =
     offline
       \<lparr>http_get := (\<lambda>url. Response 200 ''page''),
        ik_result_titles := (\<lambda>doc. if doc = [] then []
                                    else [\<lparr>ik_anchor = Some (''A v B'', ''/doc/1/''), ik_next_div = None\<rparr>]),
        austlii_anchors := (\<lambda>doc. if doc = [] then []
                                   else [\<lparr>al_href = ''/cgi-bin/viewdoc/au/cases/1.html'', al_text = ''C v D'',
                                          al_siblings = [], al_meta = None\<rparr>]),
        canlii_anchors := (\<lambda>doc. if doc = [] then []
                                  else [\<lparr>la_text = ''E v F'', la_href = Some ''/en/ca/scc/doc/1''\<rparr>]),
        justia_anchors := (\<lambda>doc. if doc = [] then []
                                  else [\<lparr>la_text = ''G v H'', la_href = Some ''https://law.justia.com/1''\<rparr>]),
        canlii_browser := (\<lambda>kw. \<lparr>fail_step = None, fail_text = [], page_source = ''page'',
                                  quit_fails = None\<rparr>),
        justia_browser := (\<lambda>url. \<lparr>fail_step = None, fail_text = [], page_source = ''page'',
                                   quit_fails = None\<rparr>)\<rparr>"

section \<open>The formatters: numbering\<close>

lemma cumulative_before_first: "cumulative_before c 1 = 0"
  by (simp add: cumulative_before_def)

lemma cumulative_before_second: "cumulative_before c 2 = get0 c 1"
  by (simp add: cumulative_before_def)

lemma cumulative_before_own: "cumulative_before (c(q \<mapsto> n)) q = cumulative_before c q"
proof -
  have "map (get0 (c(q \<mapsto> n))) [1..q - 1] = map (get0 c) [1..q - 1]"
    by (rule map_cong) (auto simp: get0_def)
  then show ?thesis unfolding cumulative_before_def by (simp only:)
qed

lemma cumulative_before_split:
  assumes "1 \<le> p" "p < q"
  shows "cumulative_before c q = cumulative_before (c(p := None)) q + get0 c p"
proof -
  have sp: "[1..q - 1] = [1..p - 1] @ p # [p + 1..q - 1]"
    using assms by (intro upto_split3) auto
  have a: "map (get0 (c(p := None))) [1..p - 1] = map (get0 c) [1..p - 1]"
    by (rule map_cong) (auto simp: get0_def)
  have b: "map (get0 (c(p := None))) [p + 1..q - 1] = map (get0 c) [p + 1..q - 1]"
    by (rule map_cong) (auto simp: get0_def)
  have "sum_list (map (get0 c) [1..q - 1])
          = sum_list (map (get0 c) [1..p - 1]) + get0 c p + sum_list (map (get0 c) [p + 1..q - 1])"
    unfolding sp by simp
  moreover have "sum_list (map (get0 (c(p := None))) [1..q - 1])
          = sum_list (map (get0 (c(p := None))) [1..p - 1]) + get0 (c(p := None)) p
            + sum_list (map (get0 (c(p := None))) [p + 1..q - 1])"
    unfolding sp by simp
  moreover have "get0 (c(p := None)) p = 0" by (simp add: get0_def)
  ultimately show ?thesis
    unfolding cumulative_before_def a b by simp
qed

lemma format_ik_empty: "format_indian_kanoon_results [] p st = (''No results found.'', st)"
  by (simp add: format_indian_kanoon_results_def)

lemma format_justia_empty: "format_justia_results [] p st = (''No results found.'', st)"
  by (simp add: format_justia_results_def)

lemma format_ik_nonempty:
  "rs \<noteq> [] \<Longrightarrow> format_indian_kanoon_results rs p st =
     (''### Indian Kanoon Results (Page '' @ str_int p @ '')\<newline>\<newline>''
        @ concat (map entry_with_details (enumerate (Suc (cumulative_before (stored_ik st) p)) rs)),
      st\<lparr>ik_counts := Some ((stored_ik st)(p \<mapsto> length rs))\<rparr>)"
  by (simp add: format_indian_kanoon_results_def Let_def cumulative_before_own stored_ik_def)

lemma format_justia_nonempty:
  "rs \<noteq> [] \<Longrightarrow> format_justia_results rs p st =
     (''### Justia Results (Page '' @ str_int p @ '')\<newline>\<newline>''
        @ concat (map entry_plain (enumerate (Suc (cumulative_before (stored_justia st) p)) rs)),
      st\<lparr>justia_counts := Some ((stored_justia st)(p \<mapsto> length rs))\<rparr>)"
  by (simp add: format_justia_results_def Let_def cumulative_before_own stored_justia_def)

lemma str_int_1: "str_int 1 = ''1''" by code_simp
lemma str_int_2: "str_int 2 = ''2''" by code_simp
lemma str_int_3: "str_int 3 = ''3''" by code_simp

lemma stored_ik_update: "stored_ik (st\<lparr>ik_counts := Some c\<rparr>) = c"
  by (simp add: stored_ik_def)

lemma stored_justia_update: "stored_justia (st\<lparr>justia_counts := Some c\<rparr>) = c"
  by (simp add: stored_justia_def)

lemma entry_with_details_text:
  "entry_with_details = (\<lambda>(i, res).
                        ''**'' @ str_nat i @ ''. '' @ title res @ ''**\<newline>- Link: '' @ link res @ ''\<newline>''
                        @ (case details res of
                             None \<Rightarrow> []
                           | Some d \<Rightarrow> if d = [] then [] else ''- Details: '' @ d @ ''\<newline>'')
                        @ ''\<newline>'')"
  by (rule ext) (simp add: entry_with_details_def)

lemma entry_plain_text:
  "entry_plain = (\<lambda>(i, res).
                        ''**'' @ str_nat i @ ''. '' @ title res @ ''**\<newline>- Link: '' @ link res
                        @ ''\<newline>\<newline>'')"
  by (rule ext) (simp add: entry_plain_def)

lemma page2_numbering:
  assumes "page1 \<noteq> [] \<or> (get0 (stored_ik st) 1 = 0 \<and> get0 (stored_justia st) 1 = 0)"
  shows "fst (format_indian_kanoon_results page2 2 (snd (format_indian_kanoon_results page1 1 st))) =
           (if page2 = [] then ''No results found.''
            else ''### Indian Kanoon Results (Page 2)\<newline>\<newline>''
                 @ concat (map entry_with_details
                     (zip [length page1 + 1..<length page1 + length page2 + 1] page2)))
       \<and> fst (format_justia_results page2 2 (snd (format_justia_results page1 1 st))) =
           (if page2 = [] then ''No results found.''
            else ''### Justia Results (Page 2)\<newline>\<newline>''
                 @ concat (map entry_plain
                     (zip [length page1 + 1..<length page1 + length page2 + 1] page2)))"
proof (cases "page1 = []")
  case True
  with assms have z: "get0 (stored_ik st) 1 = 0" "get0 (stored_justia st) 1 = 0" by auto
  show ?thesis
    using True z
    by (simp add: format_ik_empty format_justia_empty format_ik_nonempty format_justia_nonempty
          cumulative_before_second enumerate_eq_zip str_int_2)
next
  case False
  then show ?thesis
    by (simp add: format_ik_empty format_justia_empty format_ik_nonempty format_justia_nonempty
          cumulative_before_second enumerate_eq_zip str_int_2 stored_ik_update
          stored_justia_update get0_def)
qed

text \<open>
  C1. Continuous numbering across pages. Page 1 with \<open>n1\<close> results is formatted first, then
  page 2 with \<open>n2\<close> results; page 1 recorded its count (it was not empty), or no count was
  stored for page 1 before. Then the text of page 2 is its header followed by one entry
  for each result, and the entries carry the numbers \<open>n1 + 1\<close> to \<open>n1 + n2\<close> in order,
  for Indian Kanoon and for Justia.
\<close>

theorem continuous_numbering:
  assumes "page1 \<noteq> [] \<or> (get0 (stored_ik st) 1 = 0 \<and> get0 (stored_justia st) 1 = 0)"
  shows "fst (format_indian_kanoon_results page2 2 (snd (format_indian_kanoon_results page1 1 st))) =
           (if page2 = [] then ''No results found.''
            else ''### Indian Kanoon Results (Page 2)\<newline>\<newline>''
                 @ concat (map (\<lambda>(i, res).
                        ''**'' @ str_nat i @ ''. '' @ title res @ ''**\<newline>- Link: '' @ link res @ ''\<newline>''
                        @ (case details res of
                             None \<Rightarrow> []
                           | Some d \<Rightarrow> if d = [] then [] else ''- Details: '' @ d @ ''\<newline>'')
                        @ ''\<newline>'')
                     (zip [length page1 + 1..<length page1 + length page2 + 1] page2)))
       \<and> fst (format_justia_results page2 2 (snd (format_justia_results page1 1 st))) =
           (if page2 = [] then ''No results found.''
            else ''### Justia Results (Page 2)\<newline>\<newline>''
                 @ concat (map (\<lambda>(i, res).
                        ''**'' @ str_nat i @ ''. '' @ title res @ ''**\<newline>- Link: '' @ link res
                        @ ''\<newline>\<newline>'')
                     (zip [length page1 + 1..<length page1 + length page2 + 1] page2)))"
  using page2_numbering [OF assms] by (simp only: entry_with_details_text entry_plain_text)

text \<open>
  The example of the specification: 9 results on page 1, then 8 on page 2, which are
  numbered 10 to 17, in the text of Indian Kanoon and in the text of Justia.
\<close>

lemma page2_text_ik:
  "''### Indian Kanoon Results (Page 2)\<newline>\<newline>''
     @ concat (map (\<lambda>(i, res).
                        ''**'' @ str_nat i @ ''. '' @ title res @ ''**\<newline>- Link: '' @ link res @ ''\<newline>''
                        @ (case details res of
                             None \<Rightarrow> []
                           | Some d \<Rightarrow> if d = [] then [] else ''- Details: '' @ d @ ''\<newline>'')
                        @ ''\<newline>'')
         (zip [10..<18] (map sample_result [10..<18]))) =
     ''### Indian Kanoon Results (Page 2)\<newline>\<newline>''
     @ ''**10. Case 10**\<newline>- Link: https://indiankanoon.org/doc/10\<newline>\<newline>''
     @ ''**11. Case 11**\<newline>- Link: https://indiankanoon.org/doc/11\<newline>\<newline>''
     @ ''**12. Case 12**\<newline>- Link: https://indiankanoon.org/doc/12\<newline>\<newline>''
     @ ''**13. Case 13**\<newline>- Link: https://indiankanoon.org/doc/13\<newline>\<newline>''
     @ ''**14. Case 14**\<newline>- Link: https://indiankanoon.org/doc/14\<newline>\<newline>''
     @ ''**15. Case 15**\<newline>- Link: https://indiankanoon.org/doc/15\<newline>\<newline>''
     @ ''**16. Case 16**\<newline>- Link: https://indiankanoon.org/doc/16\<newline>\<newline>''
     @ ''**17. Case 17**\<newline>- Link: https://indiankanoon.org/doc/17\<newline>\<newline>''"
  by code_simp

lemma page2_text_justia:
  "''### Justia Results (Page 2)\<newline>\<newline>''
     @ concat (map (\<lambda>(i, res).
                        ''**'' @ str_nat i @ ''. '' @ title res @ ''**\<newline>- Link: '' @ link res
                        @ ''\<newline>\<newline>'')
         (zip [10..<18] (map sample_result [10..<18]))) =
     ''### Justia Results (Page 2)\<newline>\<newline>''
     @ ''**10. Case 10**\<newline>- Link: https://indiankanoon.org/doc/10\<newline>\<newline>''
     @ ''**11. Case 11**\<newline>- Link: https://indiankanoon.org/doc/11\<newline>\<newline>''
     @ ''**12. Case 12**\<newline>- Link: https://indiankanoon.org/doc/12\<newline>\<newline>''
     @ ''**13. Case 13**\<newline>- Link: https://indiankanoon.org/doc/13\<newline>\<newline>''
     @ ''**14. Case 14**\<newline>- Link: https://indiankanoon.org/doc/14\<newline>\<newline>''
     @ ''**15. Case 15**\<newline>- Link: https://indiankanoon.org/doc/15\<newline>\<newline>''
     @ ''**16. Case 16**\<newline>- Link: https://indiankanoon.org/doc/16\<newline>\<newline>''
     @ ''**17. Case 17**\<newline>- Link: https://indiankanoon.org/doc/17\<newline>\<newline>''"
  by code_simp

theorem continuous_numbering_witness:
  "map sample_result [1..<10] \<noteq> []
   \<and> fst (format_indian_kanoon_results (map sample_result [10..<18]) 2
            (snd (format_indian_kanoon_results (map sample_result [1..<10]) 1 empty_session))) =
       ''### Indian Kanoon Results (Page 2)\<newline>\<newline>''
     @ ''**10. Case 10**\<newline>- Link: https://indiankanoon.org/doc/10\<newline>\<newline>''
     @ ''**11. Case 11**\<newline>- Link: https://indiankanoon.org/doc/11\<newline>\<newline>''
     @ ''**12. Case 12**\<newline>- Link: https://indiankanoon.org/doc/12\<newline>\<newline>''
     @ ''**13. Case 13**\<newline>- Link: https://indiankanoon.org/doc/13\<newline>\<newline>''
     @ ''**14. Case 14**\<newline>- Link: https://indiankanoon.org/doc/14\<newline>\<newline>''
     @ ''**15. Case 15**\<newline>- Link: https://indiankanoon.org/doc/15\<newline>\<newline>''
     @ ''**16. Case 16**\<newline>- Link: https://indiankanoon.org/doc/16\<newline>\<newline>''
     @ ''**17. Case 17**\<newline>- Link: https://indiankanoon.org/doc/17\<newline>\<newline>''
   \<and> fst (format_justia_results (map sample_result [10..<18]) 2
            (snd (format_justia_results (map sample_result [1..<10]) 1 empty_session))) =
       ''### Justia Results (Page 2)\<newline>\<newline>''
     @ ''**10. Case 10**\<newline>- Link: https://indiankanoon.org/doc/10\<newline>\<newline>''
     @ ''**11. Case 11**\<newline>- Link: https://indiankanoon.org/doc/11\<newline>\<newline>''
     @ ''**12. Case 12**\<newline>- Link: https://indiankanoon.org/doc/12\<newline>\<newline>''
     @ ''**13. Case 13**\<newline>- Link: https://indiankanoon.org/doc/13\<newline>\<newline>''
     @ ''**14. Case 14**\<newline>- Link: https://indiankanoon.org/doc/14\<newline>\<newline>''
     @ ''**15. Case 15**\<newline>- Link: https://indiankanoon.org/doc/15\<newline>\<newline>''
     @ ''**16. Case 16**\<newline>- Link: https://indiankanoon.org/doc/16\<newline>\<newline>''
     @ ''**17. Case 17**\<newline>- Link: https://indiankanoon.org/doc/17\<newline>\<newline>''"
proof -
  have h: "map sample_result [1..<10] \<noteq> []
      \<or> (get0 (stored_ik empty_session) 1 = 0 \<and> get0 (stored_justia empty_session) 1 = 0)"
    by simp
  have n: "length (map sample_result [1..<10]) + 1 = 10"
      "length (map sample_result [1..<10]) + length (map sample_result [10..<18]) + 1 = 18"
      "(map sample_result [10..<18] = []) = False"
    by simp_all
  note t = continuous_numbering [OF h, of "map sample_result [10..<18]", unfolded n if_False]
  have a: "map sample_result [1..<10] \<noteq> []" by simp
  from a t [THEN conjunct1] t [THEN conjunct2] show ?thesis
    by (simp only: page2_text_ik page2_text_justia simp_thms)
qed

lemma page1_numbering:
  "format_results rs name =
     ''### '' @ name @ '' Results:\<newline>\<newline>''
       @ (if rs = [] then ''No results found.\<newline>''
          else concat (map entry_with_details (zip [1..<length rs + 1] rs)))
   \<and> fst (format_indian_kanoon_results rs 1 st) =
       (if rs = [] then ''No results found.''
        else ''### Indian Kanoon Results (Page 1)\<newline>\<newline>''
               @ concat (map entry_with_details (zip [1..<length rs + 1] rs)))
   \<and> fst (format_justia_results rs 1 st) =
       (if rs = [] then ''No results found.''
        else ''### Justia Results (Page 1)\<newline>\<newline>''
               @ concat (map entry_plain (zip [1..<length rs + 1] rs)))"
  by (simp add: format_results_def format_ik_empty format_justia_empty format_ik_nonempty
        format_justia_nonempty cumulative_before_first enumerate_eq_zip str_int_1)

text \<open>
  C2. Numbering starts at 1 on page 1: the text that \<open>format_results\<close> gives always
  numbers its entries from 1, and so does the text of the Indian Kanoon and Justia
  formatters when the current page is 1, whatever counts the session state holds.
\<close>

theorem numbering_starts_at_one:
  "format_results rs name =
     ''### '' @ name @ '' Results:\<newline>\<newline>''
       @ (if rs = [] then ''No results found.\<newline>''
          else concat (map (\<lambda>(i, res).
                        ''**'' @ str_nat i @ ''. '' @ title res @ ''**\<newline>- Link: '' @ link res @ ''\<newline>''
                        @ (case details res of
                             None \<Rightarrow> []
                           | Some d \<Rightarrow> if d = [] then [] else ''- Details: '' @ d @ ''\<newline>'')
                        @ ''\<newline>'')
                 (zip [1..<length rs + 1] rs)))
   \<and> fst (format_indian_kanoon_results rs 1 st) =
       (if rs = [] then ''No results found.''
        else ''### Indian Kanoon Results (Page 1)\<newline>\<newline>''
               @ concat (map (\<lambda>(i, res).
                        ''**'' @ str_nat i @ ''. '' @ title res @ ''**\<newline>- Link: '' @ link res @ ''\<newline>''
                        @ (case details res of
                             None \<Rightarrow> []
                           | Some d \<Rightarrow> if d = [] then [] else ''- Details: '' @ d @ ''\<newline>'')
                        @ ''\<newline>'')
                   (zip [1..<length rs + 1] rs)))
   \<and> fst (format_justia_results rs 1 st) =
       (if rs = [] then ''No results found.''
        else ''### Justia Results (Page 1)\<newline>\<newline>''
               @ concat (map (\<lambda>(i, res).
                        ''**'' @ str_nat i @ ''. '' @ title res @ ''**\<newline>- Link: '' @ link res
                        @ ''\<newline>\<newline>'')
                   (zip [1..<length rs + 1] rs)))"
  using page1_numbering [of rs name st] by (simp only: entry_with_details_text entry_plain_text)

text \<open>
  Two results, formatted on page 1 of a session that holds counts of an earlier search:
  the three texts, each numbered 1 and 2.
\<close>

lemma page1_texts:
  "''### '' @ ''AustLII'' @ '' Results:\<newline>\<newline>''
     @ concat (map (\<lambda>(i, res).
                        ''**'' @ str_nat i @ ''. '' @ title res @ ''**\<newline>- Link: '' @ link res @ ''\<newline>''
                        @ (case details res of
                             None \<Rightarrow> []
                           | Some d \<Rightarrow> if d = [] then [] else ''- Details: '' @ d @ ''\<newline>'')
                        @ ''\<newline>'')
         (zip [1..<3] (map sample_result [1..<3]))) =
     ''### AustLII Results:\<newline>\<newline>''
     @ ''**1. Case 1**\<newline>- Link: https://indiankanoon.org/doc/1\<newline>\<newline>''
     @ ''**2. Case 2**\<newline>- Link: https://indiankanoon.org/doc/2\<newline>\<newline>''
   \<and> ''### Indian Kanoon Results (Page 1)\<newline>\<newline>''
     @ concat (map (\<lambda>(i, res).
                        ''**'' @ str_nat i @ ''. '' @ title res @ ''**\<newline>- Link: '' @ link res @ ''\<newline>''
                        @ (case details res of
                             None \<Rightarrow> []
                           | Some d \<Rightarrow> if d = [] then [] else ''- Details: '' @ d @ ''\<newline>'')
                        @ ''\<newline>'')
         (zip [1..<3] (map sample_result [1..<3]))) =
     ''### Indian Kanoon Results (Page 1)\<newline>\<newline>''
     @ ''**1. Case 1**\<newline>- Link: https://indiankanoon.org/doc/1\<newline>\<newline>''
     @ ''**2. Case 2**\<newline>- Link: https://indiankanoon.org/doc/2\<newline>\<newline>''
   \<and> ''### Justia Results (Page 1)\<newline>\<newline>''
     @ concat (map (\<lambda>(i, res).
                        ''**'' @ str_nat i @ ''. '' @ title res @ ''**\<newline>- Link: '' @ link res
                        @ ''\<newline>\<newline>'')
         (zip [1..<3] (map sample_result [1..<3]))) =
     ''### Justia Results (Page 1)\<newline>\<newline>''
     @ ''**1. Case 1**\<newline>- Link: https://indiankanoon.org/doc/1\<newline>\<newline>''
     @ ''**2. Case 2**\<newline>- Link: https://indiankanoon.org/doc/2\<newline>\<newline>''"
  by code_simp

theorem numbering_starts_at_one_witness:
  "format_results (map sample_result [1..<3]) ''AustLII'' =
     ''### AustLII Results:\<newline>\<newline>''
     @ ''**1. Case 1**\<newline>- Link: https://indiankanoon.org/doc/1\<newline>\<newline>''
     @ ''**2. Case 2**\<newline>- Link: https://indiankanoon.org/doc/2\<newline>\<newline>''
   \<and> fst (format_indian_kanoon_results (map sample_result [1..<3]) 1
            (empty_session\<lparr>ik_counts := Some [1 \<mapsto> 9, 2 \<mapsto> 8], justia_counts := Some [1 \<mapsto> 9]\<rparr>)) =
     ''### Indian Kanoon Results (Page 1)\<newline>\<newline>''
     @ ''**1. Case 1**\<newline>- Link: https://indiankanoon.org/doc/1\<newline>\<newline>''
     @ ''**2. Case 2**\<newline>- Link: https://indiankanoon.org/doc/2\<newline>\<newline>''
   \<and> fst (format_justia_results (map sample_result [1..<3]) 1
            (empty_session\<lparr>ik_counts := Some [1 \<mapsto> 9, 2 \<mapsto> 8], justia_counts := Some [1 \<mapsto> 9]\<rparr>)) =
     ''### Justia Results (Page 1)\<newline>\<newline>''
     @ ''**1. Case 1**\<newline>- Link: https://indiankanoon.org/doc/1\<newline>\<newline>''
     @ ''**2. Case 2**\<newline>- Link: https://indiankanoon.org/doc/2\<newline>\<newline>''"
proof -
  have n: "length (map sample_result [1..<3]) + 1 = 3" "(map sample_result [1..<3] = []) = False"
    by simp_all
  note t = numbering_starts_at_one [of "map sample_result [1..<3]" "''AustLII''"
      "empty_session\<lparr>ik_counts := Some [1 \<mapsto> 9, 2 \<mapsto> 8], justia_counts := Some [1 \<mapsto> 9]\<rparr>",
      unfolded n if_False]
  from t show ?thesis
    by (simp only: page1_texts)
qed

text \<open>
  C10, as amended. On an empty result list both formatters return exactly
  \<open>No results found.\<close> and leave the session state as it was: no count is recorded, and a
  count recorded earlier for that page stays. A later page \<open>q\<close> is then numbered from the
  counts of the other pages before \<open>q\<close>, plus the count stored earlier for the empty
  page \<open>p\<close> (zero when there is none), plus one.
\<close>

theorem empty_page_keeps_counts:
  "format_indian_kanoon_results [] p st = (''No results found.'', st)
   \<and> format_justia_results [] p st = (''No results found.'', st)
   \<and> (rs \<noteq> [] \<and> 1 \<le> p \<and> p < q \<longrightarrow>
        fst (format_indian_kanoon_results rs q (snd (format_indian_kanoon_results [] p st))) =
          ''### Indian Kanoon Results (Page '' @ str_int q @ '')\<newline>\<newline>''
          @ concat (map entry_with_details
              (enumerate (cumulative_before ((stored_ik st)(p := None)) q + get0 (stored_ik st) p + 1) rs))
        \<and> fst (format_justia_results rs q (snd (format_justia_results [] p st))) =
          ''### Justia Results (Page '' @ str_int q @ '')\<newline>\<newline>''
          @ concat (map entry_plain
              (enumerate (cumulative_before ((stored_justia st)(p := None)) q + get0 (stored_justia st) p + 1) rs)))"
  using cumulative_before_split [of p q "stored_ik st"] cumulative_before_split [of p q "stored_justia st"]
  by (simp add: format_ik_empty format_justia_empty format_ik_nonempty format_justia_nonempty)

text \<open>
  C10 as stated fails: page 2 shows 8 results, is shown again with none, and page 3 is
  then numbered from 9: the empty page contributes 8, not zero.
\<close>

theorem empty_page_counterexample:
  "fst (format_indian_kanoon_results [sample_result 1] 3
         (snd (format_indian_kanoon_results [] 2
           (snd (format_indian_kanoon_results (map sample_result [1..<9]) 2
             (empty_session\<lparr>ik_counts := Some Map.empty\<rparr>)))))) =
     ''### Indian Kanoon Results (Page 3)\<newline>\<newline>**9. Case 1**\<newline>- Link: https://indiankanoon.org/doc/1\<newline>\<newline>''"
  by code_simp

text \<open>The amended statement at the same input.\<close>

theorem empty_page_keeps_counts_witness:
  "[sample_result 1] \<noteq> [] \<and> (1::int) \<le> 2 \<and> (2::int) < 3
   \<and> format_indian_kanoon_results [] 2 (empty_session\<lparr>ik_counts := Some [2 \<mapsto> 8]\<rparr>) =
       (''No results found.'', empty_session\<lparr>ik_counts := Some [2 \<mapsto> 8]\<rparr>)
   \<and> fst (format_indian_kanoon_results [sample_result 1] 3
        (snd (format_indian_kanoon_results [] 2 (empty_session\<lparr>ik_counts := Some [2 \<mapsto> 8]\<rparr>)))) =
       ''### Indian Kanoon Results (Page 3)\<newline>\<newline>'' @ entry_with_details (9, sample_result 1)"
proof -
  have upto: "[1..(2::int)] = [1, 2]" by code_simp
  show ?thesis
    using empty_page_keeps_counts [of 2 "empty_session\<lparr>ik_counts := Some [2 \<mapsto> 8]\<rparr>" "[sample_result 1]" 3]
    by (simp add: stored_ik_update cumulative_before_def get0_def str_int_3 enumerate_eq_zip upto
          format_ik_empty)
qed

section \<open>The fetch routines\<close>

lemma ik_search_url_http_get [simp]: "ik_search_url (e\<lparr>http_get := g\<rparr>) kw page = ik_search_url e kw page"
  by (simp add: ik_search_url_def)

text \<open>
  C9. When the response of Indian Kanoon has a status code other than 200,
  \<open>fetch_indian_kanoon_results\<close> returns the empty list: it raises nothing and shows no
  error (the request is all it does), and the outcome is the one of a search that
  answers 200 with no result title in the page.
\<close>

theorem ik_non_200_gives_empty:
  assumes "http_get e (ik_search_url e kw page) = Response status_code content"
    and "status_code \<noteq> 200"
  shows "fetch_indian_kanoon_results e kw page = ([HttpGet (ik_search_url e kw page) None], Inr [])
         \<and> (ik_result_titles e content' = [] \<longrightarrow>
              fetch_indian_kanoon_results (e\<lparr>http_get := \<lambda>url. Response 200 content'\<rparr>) kw page
              = fetch_indian_kanoon_results e kw page)"
  using assms by (simp add: fetch_indian_kanoon_results_def)

lemma sample_ik_url: "ik_search_url offline ''contract law'' 1 = ''https://indiankanoon.org/search/?formInput=contract+law''"
  by (simp add: ik_search_url_def offline_def)

text \<open>A 503 answer and a 200 answer without hits, for the same search.\<close>

theorem ik_non_200_gives_empty_witness:
  "http_get (offline\<lparr>http_get := \<lambda>url. Response 503 ''Service Unavailable''\<rparr>)
     (ik_search_url (offline\<lparr>http_get := \<lambda>url. Response 503 ''Service Unavailable''\<rparr>) ''contract law'' 1)
     = Response 503 ''Service Unavailable''
   \<and> (503::int) \<noteq> 200
   \<and> fetch_indian_kanoon_results (offline\<lparr>http_get := \<lambda>url. Response 503 ''Service Unavailable''\<rparr>)
        ''contract law'' 1
      = ([HttpGet ''https://indiankanoon.org/search/?formInput=contract+law'' None], Inr [])
   \<and> fetch_indian_kanoon_results (offline\<lparr>http_get := \<lambda>url. Response 200 ''no hits''\<rparr>)
        ''contract law'' 1
      = ([HttpGet ''https://indiankanoon.org/search/?formInput=contract+law'' None], Inr [])"
  using ik_non_200_gives_empty [of "offline\<lparr>http_get := \<lambda>url. Response 503 ''Service Unavailable''\<rparr>"
      "''contract law''" 1 503 "''Service Unavailable''" "''no hits''"]
  by (simp add: sample_ik_url) (simp add: offline_def)

section \<open>The browser session: the driver is quit\<close>

lemma attempted_shape:
  "\<exists>rest. attempted (c # cs) f = c # rest \<and> set rest \<subseteq> set cs"
  by (cases f) (auto simp: attempted_def dest: in_set_takeD)

lemma browser_session_events:
  "\<exists>rest caught. attempted (c # cs) (fail_step run) = c # rest \<and> set rest \<subseteq> set cs
      \<and> (caught = [] \<or> (\<exists>msg. caught = [Error msg]))
      \<and> fst (browser_session source (c # cs) run) =
          Browser c # map Browser rest @ caught @ (if driver_created run then [Browser Quit] else [])"
proof -
  obtain rest where r: "attempted (c # cs) (fail_step run) = c # rest" "set rest \<subseteq> set cs"
    using attempted_shape by blast
  show ?thesis
    using r by (auto simp: browser_session_def Let_def split: option.splits)
qed

lemma quit_not_in_canlii: "\<exists>cs. canlii_calls kw = NewDriver edge_options # cs \<and> Quit \<notin> set cs"
  by (simp add: canlii_calls_def)

lemma quit_not_in_justia: "\<exists>cs. justia_calls url = NewDriver edge_options # cs \<and> Quit \<notin> set cs"
  by (simp add: justia_calls_def)

lemma session_quit:
  assumes "Quit \<notin> set cs" and "c \<noteq> Quit"
  shows "(\<exists>rest. fst (browser_session source (c # cs) run) = Browser c # rest)
     \<and> (driver_created run \<longrightarrow>
          (\<exists>before. fst (browser_session source (c # cs) run) = before @ [Browser Quit]
                     \<and> Browser Quit \<notin> set before))
     \<and> (\<not> driver_created run \<longrightarrow> Browser Quit \<notin> set (fst (browser_session source (c # cs) run)))"
proof -
  obtain rest caught where r: "set rest \<subseteq> set cs"
      "caught = [] \<or> (\<exists>msg. caught = [Error msg])"
      "fst (browser_session source (c # cs) run) =
          Browser c # map Browser rest @ caught @ (if driver_created run then [Browser Quit] else [])"
    using browser_session_events [of c cs run source] by (elim exE conjE)
  have "Quit \<notin> set rest" using assms(1) r(1) by blast
  then have nq1: "Browser Quit \<notin> set (map Browser rest)" by (simp add: image_iff)
  have nq2: "Browser Quit \<notin> set caught" using r(2) by (elim disjE exE) simp_all
  have nq: "Browser Quit \<notin> set (Browser c # map Browser rest @ caught)"
    using nq1 nq2 assms(2) by simp
  have first: "\<exists>rest. fst (browser_session source (c # cs) run) = Browser c # rest"
    by (simp only: r(3)) simp
  have created: "\<exists>before. fst (browser_session source (c # cs) run) = before @ [Browser Quit]
                     \<and> Browser Quit \<notin> set before" if "driver_created run"
  proof (intro exI conjI)
    show "fst (browser_session source (c # cs) run) = (Browser c # map Browser rest @ caught) @ [Browser Quit]"
      using that by (simp only: r(3)) simp
    show "Browser Quit \<notin> set (Browser c # map Browser rest @ caught)" by (rule nq)
  qed
  have not_created: "Browser Quit \<notin> set (fst (browser_session source (c # cs) run))"
    if "\<not> driver_created run"
    using that nq by (simp only: r(3)) simp
  show ?thesis
  proof (intro conjI impI)
    show "\<exists>rest. fst (browser_session source (c # cs) run) = Browser c # rest" by (rule first)
  next
    assume "driver_created run"
    then show "\<exists>before. fst (browser_session source (c # cs) run) = before @ [Browser Quit]
                     \<and> Browser Quit \<notin> set before" by (rule created)
  next
    assume "\<not> driver_created run"
    then show "Browser Quit \<notin> set (fst (browser_session source (c # cs) run))" by (rule not_created)
  qed
qed

lemma fst_fetch_canlii:
  "fst (fetch_canlii_search_results e kw) = fst (browser_session ''CanLII'' (canlii_calls kw) (canlii_browser e kw))"
  by (simp add: fetch_canlii_search_results_def split: prod.splits sum.splits)

lemma fst_fetch_justia:
  "fst (fetch_justia_search_results e kw page) =
     fst (browser_session ''Justia'' (justia_calls (justia_search_url e kw page))
            (justia_browser e (justia_search_url e kw page)))"
  by (simp add: fetch_justia_search_results_def split: prod.splits sum.splits)

text \<open>
  C6. \<open>fetch_canlii_search_results\<close> and \<open>fetch_justia_search_results\<close> start by creating
  a headless driver. When the driver was created, the last thing the call does with the
  outside world is \<open>driver.quit()\<close>, once, whether the session succeeded or a call raised;
  when the creation itself failed there is no driver and nothing is quit.
\<close>

theorem driver_always_quit:
  "(\<exists>rest. fst (fetch_canlii_search_results e kw) = Browser (NewDriver edge_options) # rest)
   \<and> (driver_created (canlii_browser e kw) \<longrightarrow>
        (\<exists>before. fst (fetch_canlii_search_results e kw) = before @ [Browser Quit]
                   \<and> Browser Quit \<notin> set before))
   \<and> (\<not> driver_created (canlii_browser e kw) \<longrightarrow>
        Browser Quit \<notin> set (fst (fetch_canlii_search_results e kw)))
   \<and> (\<exists>rest. fst (fetch_justia_search_results e kw page) = Browser (NewDriver edge_options) # rest)
   \<and> (driver_created (justia_browser e (justia_search_url e kw page)) \<longrightarrow>
        (\<exists>before. fst (fetch_justia_search_results e kw page) = before @ [Browser Quit]
                   \<and> Browser Quit \<notin> set before))
   \<and> (\<not> driver_created (justia_browser e (justia_search_url e kw page)) \<longrightarrow>
        Browser Quit \<notin> set (fst (fetch_justia_search_results e kw page)))"
proof -
  obtain cs where c: "canlii_calls kw = NewDriver edge_options # cs" "Quit \<notin> set cs"
    using quit_not_in_canlii [of kw] by (elim exE conjE)
  obtain js where j: "justia_calls (justia_search_url e kw page) = NewDriver edge_options # js"
      "Quit \<notin> set js"
    using quit_not_in_justia [of "justia_search_url e kw page"] by (elim exE conjE)
  have n: "NewDriver edge_options \<noteq> Quit" by simp
  note cl = session_quit [OF c(2) n, of "''CanLII''" "canlii_browser e kw", folded c(1)]
  note ju = session_quit [OF j(2) n, of "''Justia''" "justia_browser e (justia_search_url e kw page)",
      folded j(1)]
  from cl ju show ?thesis
    unfolding fst_fetch_canlii fst_fetch_justia by (elim conjE, intro conjI) assumption+
qed

text \<open>An error path: the wait for the search bar times out, the error is shown, the driver is quit.\<close>

lemma canlii_offline_events:
  "fst (fetch_canlii_search_results offline ''contract law'') =
     [Browser (NewDriver [''--headless'', ''--disable-gpu'']),
      Browser (Get ''https://www.canlii.org/en/''),
      Browser (ExecuteScript hide_cookie_blocker []),
      Browser (WaitPresence 20 ''#textInput''),
      Error ''Error fetching CanLII results: timeout'',
      Browser Quit]"
  by code_simp

theorem driver_always_quit_witness:
  "driver_created (canlii_browser offline ''contract law'')
   \<and> last (fst (fetch_canlii_search_results offline ''contract law'')) = Browser Quit
   \<and> fst (fetch_canlii_search_results offline ''contract law'') =
     [Browser (NewDriver [''--headless'', ''--disable-gpu'']),
      Browser (Get ''https://www.canlii.org/en/''),
      Browser (ExecuteScript hide_cookie_blocker []),
      Browser (WaitPresence 20 ''#textInput''),
      Error ''Error fetching CanLII results: timeout'',
      Browser Quit]"
proof -
  have created: "driver_created (canlii_browser offline ''contract law'')"
    by (simp add: driver_created_def offline_def)
  from driver_always_quit [of offline "''contract law''" 1]
  have "driver_created (canlii_browser offline ''contract law'') \<longrightarrow>
        (\<exists>before. fst (fetch_canlii_search_results offline ''contract law'') = before @ [Browser Quit]
                   \<and> Browser Quit \<notin> set before)"
    by (elim conjE)
  with created obtain before where
    "fst (fetch_canlii_search_results offline ''contract law'') = before @ [Browser Quit]"
    by (elim impE exE conjE)
  then have "last (fst (fetch_canlii_search_results offline ''contract law'')) = Browser Quit"
    by (simp only: last_snoc)
  with created canlii_offline_events show ?thesis by (simp only: simp_thms)
qed

section \<open>How each source is reached\<close>

lemma ik_events:
  "fst (fetch_indian_kanoon_results e kw page) = [HttpGet (ik_search_url e kw page) None]"
  by (simp add: fetch_indian_kanoon_results_def Let_def split: http_outcome.splits)

















section \<open>The links of the results\<close>

lemma startswith_prefixed: "startswith (''http'' @ s) ''http''"
  by (simp add: startswith_def)

lemma ik_records_links: "\<forall>r\<in>set (ik_records ts). startswith (link r) ''http''"
proof (induction ts)
  case Nil
  show ?case by simp
next
  case (Cons t ts)
  have "startswith (''https://indiankanoon.org'' @ h) ''http''" for h
    by (simp add: startswith_def)
  with Cons show ?case
    by (auto split: option.splits prod.splits)
qed

lemma austlii_records_links:
  "austlii_records as = Inr rs \<Longrightarrow> \<forall>r\<in>set rs. startswith (link r) ''http''"
proof (induction as arbitrary: rs)
  case Nil
  then show ?case by simp
next
  case (Cons a as)
  have p: "startswith (''https://www.austlii.edu.au'' @ h) ''http''" for h
    by (simp add: startswith_def)
  show ?case
  proof (cases "contains (al_href a) ''/cgi-bin/viewdoc/''")
    case False
    with Cons show ?thesis by (simp add: Let_def)
  next
    case True
    with Cons.prems obtain t rs' where h: "austlii_records as = Inr rs'"
        "rs = \<lparr>title = t,
                link = (if startswith (al_href a) ''http'' then al_href a
                        else ''https://www.austlii.edu.au'' @ al_href a),
                details = Some (case al_meta a of None \<Rightarrow> [] | Some m \<Rightarrow> m)\<rparr> # rs'"
      by (auto simp: Let_def split: sum.splits if_splits)
    from Cons.IH [OF h(1)] p show ?thesis
      by (simp add: h(2))
  qed
qed

lemma canlii_records_links:
  "canlii_records as = Inr rs \<Longrightarrow> \<forall>r\<in>set rs. startswith (link r) ''http''"
proof (induction as arbitrary: rs)
  case Nil
  then show ?case by simp
next
  case (Cons a as)
  have p: "startswith (''https://www.canlii.org'' @ h) ''http''" for h
    by (simp add: startswith_def)
  from Cons.prems obtain h rs' where h: "la_href a = Some h" "canlii_records as = Inr rs'"
      "rs = \<lparr>title = la_text a,
              link = (if \<not> startswith h ''http'' then ''https://www.canlii.org'' @ h else h),
              details = None\<rparr> # rs'"
    by (auto split: option.splits sum.splits)
  from Cons.IH [OF h(2)] p show ?case
    by (simp add: h(3))
qed

lemma justia_records_links:
  "map link (justia_records as) = map (\<lambda>a. case la_href a of None \<Rightarrow> [] | Some href \<Rightarrow> href) as"
  by (induction as) simp_all

text \<open>
  C5, as amended. Every record that \<open>fetch_indian_kanoon_results\<close> and
  \<open>fetch_canlii_search_results\<close> return has a link that begins with \<open>http\<close>, also when the
  \<open>href\<close> of the page was relative. A record of \<open>fetch_austlii_search_results\<close> has such
  a link, or is one of its two placeholders (request failed, nothing found), whose link
  is empty. \<open>fetch_justia_search_results\<close> copies the \<open>href\<close> of the page unchanged, and
  gives the empty link to an anchor without one.
\<close>

theorem links_of_results:
  "(fetch_indian_kanoon_results e kw page = (evs, Inr rs) \<longrightarrow>
      (\<forall>r\<in>set rs. startswith (link r) ''http''))
   \<and> (fetch_canlii_search_results e kw = (evs, Inr rs) \<longrightarrow>
      (\<forall>r\<in>set rs. startswith (link r) ''http''))
   \<and> (fetch_austlii_search_results e kw = (evs, Inr rs) \<longrightarrow>
      (\<forall>r\<in>set rs. startswith (link r) ''http''
                    \<or> (r = austlii_unavailable \<or> r = austlii_no_results) \<and> link r = []))
   \<and> (fetch_justia_search_results e kw page = (evs, Inr rs) \<longrightarrow>
      (\<exists>html. map link rs =
          map (\<lambda>a. case la_href a of None \<Rightarrow> [] | Some href \<Rightarrow> href) (justia_anchors e html)))"
proof (intro conjI impI)
  assume "fetch_indian_kanoon_results e kw page = (evs, Inr rs)"
  then have "rs = [] \<or> (\<exists>doc. rs = ik_records (ik_result_titles e doc))"
    by (auto simp: fetch_indian_kanoon_results_def Let_def split: http_outcome.splits if_splits)
  then show "\<forall>r\<in>set rs. startswith (link r) ''http''"
    using ik_records_links by auto
next
  assume "fetch_canlii_search_results e kw = (evs, Inr rs)"
  then have "\<exists>doc. canlii_records (canlii_anchors e doc) = Inr rs"
    by (auto simp: fetch_canlii_search_results_def split: prod.splits sum.splits)
  then show "\<forall>r\<in>set rs. startswith (link r) ''http''"
    using canlii_records_links by blast
next
  assume "fetch_austlii_search_results e kw = (evs, Inr rs)"
  then have "rs = [austlii_unavailable] \<or> rs = [austlii_no_results]
      \<or> (\<exists>doc. austlii_records (austlii_anchors e doc) = Inr rs)"
    by (auto simp: fetch_austlii_search_results_def Let_def
          split: http_outcome.splits if_splits sum.splits)
  moreover have "link austlii_unavailable = []" "link austlii_no_results = []"
    by (simp_all add: austlii_unavailable_def austlii_no_results_def)
  ultimately show "\<forall>r\<in>set rs. startswith (link r) ''http''
                    \<or> (r = austlii_unavailable \<or> r = austlii_no_results) \<and> link r = []"
    using austlii_records_links by auto
next
  assume "fetch_justia_search_results e kw page = (evs, Inr rs)"
  then have "\<exists>doc. rs = justia_records (justia_anchors e doc)"
    by (auto simp: fetch_justia_search_results_def split: prod.splits sum.splits)
  then show "\<exists>html. map link rs =
          map (\<lambda>a. case la_href a of None \<Rightarrow> [] | Some href \<Rightarrow> href) (justia_anchors e html)"
    using justia_records_links by blast
qed

text \<open>
  C5 as stated fails on the error path of AustLII: the placeholder record has the empty
  link, which does not begin with \<open>http\<close>.
\<close>

theorem links_of_results_counterexample:
  "fetch_austlii_search_results offline ''contract law'' =
     ([HttpGet ''https://www.austlii.edu.au/cgi-bin/sinosrch.cgi?method=auto&query=contract+law'' (Some 20),
       Error ''Error fetching AustLII results: connection refused''],
      Inr [\<lparr>title = ''AustLII'', link = [],
            details = Some ''AustLII results are currently unavailable due to a connection error.''\<rparr>])
   \<and> \<not> startswith [] ''http''"
  by code_simp

text \<open>A relative \<open>href\<close> of Indian Kanoon, made absolute.\<close>

lemma ik_online:
  "fetch_indian_kanoon_results online ''contract law'' 1 =
     ([HttpGet ''https://indiankanoon.org/search/?formInput=contract+law'' None],
      Inr [\<lparr>title = ''A v B'', link = ''https://indiankanoon.org/doc/1/'', details = Some []\<rparr>])"
  by code_simp

theorem links_of_results_witness:
  "fetch_indian_kanoon_results online ''contract law'' 1 =
     ([HttpGet ''https://indiankanoon.org/search/?formInput=contract+law'' None],
      Inr [\<lparr>title = ''A v B'', link = ''https://indiankanoon.org/doc/1/'', details = Some []\<rparr>])
   \<and> startswith ''https://indiankanoon.org/doc/1/'' ''http''"
proof -
  have "\<forall>r\<in>set [\<lparr>title = ''A v B'', link = ''https://indiankanoon.org/doc/1/'', details = Some []\<rparr>].
          startswith (link r) ''http''"
    using links_of_results [of online "''contract law''" 1
      "[HttpGet ''https://indiankanoon.org/search/?formInput=contract+law'' None]"
      "[\<lparr>title = ''A v B'', link = ''https://indiankanoon.org/doc/1/'', details = Some []\<rparr>]",
      THEN conjunct1] ik_online
    by (rule mp)
  then have "startswith ''https://indiankanoon.org/doc/1/'' ''http''" by simp
  with ik_online show ?thesis by (simp only: simp_thms)
qed

section \<open>Reasoning about statements\<close>

lemma always_skip: "always P skip P"
  by (simp add: always_def skip_def)

lemma always_emit: "always P (emit ev) P"
  by (simp add: always_def emit_def)

lemma always_assign: "(\<And>st. P st \<Longrightarrow> Q (f st)) \<Longrightarrow> always P (assign f) Q"
  by (simp add: always_def assign_def)

lemma always_seq:
  assumes "always P a Q" and "always Q b Q"
  shows "always P (seq a b) Q"
  unfolding always_def
proof (intro allI impI)
  fix st evs st' r
  assume p: "P st" and run: "seq a b st = (evs, st', r)"
  obtain e1 s1 r1 where a: "a st = (e1, s1, r1)" by (cases "a st") auto
  with assms(1) p have q1: "Q s1" by (auto simp: always_def)
  show "Q st'"
  proof (cases r1)
    case None
    obtain e2 s2 r2 where b: "b s1 = (e2, s2, r2)" by (cases "b s1") auto
    with assms(2) q1 have "Q s2" by (auto simp: always_def)
    with run a b None show ?thesis by (simp add: seq_def)
  next
    case (Some err)
    with run a q1 show ?thesis by (simp add: seq_def)
  qed
qed

lemma always_block_Nil: "always P (block []) P"
  by (simp add: always_skip)

lemma always_block_Cons: "always P a Q \<Longrightarrow> always Q (block as) Q \<Longrightarrow> always P (block (a # as)) Q"
  by (simp add: always_seq)

lemma always_if: "(c \<Longrightarrow> always P a Q) \<Longrightarrow> (\<not> c \<Longrightarrow> always P b Q) \<Longrightarrow> always P (if c then a else b) Q"
  by simp

lemma always_attr:
  assumes "\<And>v. always (\<lambda>st. P st \<and> field st = Some v) (body v) Q" and "\<And>st. P st \<Longrightarrow> Q st"
  shows "always P (attr name field body) Q"
  using assms by (auto simp: always_def attr_def split: option.splits)

lemma always_attr_inv:
  assumes "\<And>v. always P (body v) P"
  shows "always P (attr name field body) P"
  using assms by (auto simp: always_def attr_def split: option.splits)

lemma always_store:
  assumes "\<And>rs st. P st \<Longrightarrow> P (upd rs st)"
  shows "always P (store upd fetched) P"
  using assms by (auto simp: always_def store_def split: prod.splits sum.splits)

lemma always_weaken: "always P a Q \<Longrightarrow> (\<And>st. P' st \<Longrightarrow> P st) \<Longrightarrow> always P' a Q"
  by (auto simp: always_def)

lemmas always_intros =
  always_block_Cons always_block_Nil always_if always_skip always_emit always_attr_inv always_store
  always_assign

section \<open>The pagination counters\<close>

lemma format_ik_pages:
  "format_indian_kanoon_results rs p st = (text, st') \<Longrightarrow> pages_ok st \<Longrightarrow> pages_ok st'"
  by (auto simp: format_indian_kanoon_results_def Let_def pages_ok_def split: if_splits)

lemma format_justia_pages:
  "format_justia_results rs p st = (text, st') \<Longrightarrow> pages_ok st \<Longrightarrow> pages_ok st'"
  by (auto simp: format_justia_results_def Let_def pages_ok_def split: if_splits)

lemma pages_init: "always pages_ok init_session pages_ok"
  unfolding init_session_def
  by (intro always_intros) (auto simp: pages_ok_def)

lemma pages_fetch_ik: "always pages_ok (fetch_ik e) pages_ok"
  unfolding fetch_ik_def
  by (intro always_intros) (auto simp: pages_ok_def)

lemma pages_fetch_justia: "always pages_ok (fetch_justia e) pages_ok"
  unfolding fetch_justia_def
  by (intro always_intros) (auto simp: pages_ok_def)

lemma pages_render_ik: "always pages_ok (render_ik w) pages_ok"
  unfolding render_ik_def
  by (intro always_attr_inv) (auto simp: always_def split: prod.splits dest: format_ik_pages)

lemma pages_render_justia: "always pages_ok (render_justia w) pages_ok"
  unfolding render_justia_def
  by (intro always_attr_inv) (auto simp: always_def split: prod.splits dest: format_justia_pages)

lemma pages_on_search: "always pages_ok (on_search u e) pages_ok"
  unfolding on_search_def search_ik_block_def search_al_block_def search_cl_block_def
    search_justia_block_def
  by (intro always_intros pages_fetch_ik pages_fetch_justia) (auto simp: pages_ok_def)

lemma pages_step_ik:
  "always (\<lambda>st. pages_ok st \<and> 1 \<le> q)
     (block [assign (\<lambda>st. st\<lparr>ik_page := Some q\<rparr>), fetch_ik e, render_ik w]) pages_ok"
proof (rule always_block_Cons)
  show "always (\<lambda>st. pages_ok st \<and> 1 \<le> q) (assign (\<lambda>st. st\<lparr>ik_page := Some q\<rparr>)) pages_ok"
    by (rule always_assign) (simp add: pages_ok_def)
  show "always pages_ok (block [fetch_ik e, render_ik w]) pages_ok"
    by (intro always_intros pages_fetch_ik pages_render_ik)
qed

lemma pages_step_justia:
  "always (\<lambda>st. pages_ok st \<and> 1 \<le> q)
     (block [assign (\<lambda>st. st\<lparr>justia_page := Some q\<rparr>), fetch_justia e, render_justia w]) pages_ok"
proof (rule always_block_Cons)
  show "always (\<lambda>st. pages_ok st \<and> 1 \<le> q) (assign (\<lambda>st. st\<lparr>justia_page := Some q\<rparr>)) pages_ok"
    by (rule always_assign) (simp add: pages_ok_def)
  show "always pages_ok (block [fetch_justia e, render_justia w]) pages_ok"
    by (intro always_intros pages_fetch_justia pages_render_justia)
qed

lemma pages_prev_ik:
  "always pages_ok
     (attr ''ik_page'' ik_page (\<lambda>page.
        if page > 1 then
          block [assign (\<lambda>st. st\<lparr>ik_page := Some (page - 1)\<rparr>), fetch_ik e, render_ik w]
        else skip)) pages_ok"
proof (intro always_attr_inv always_if)
  fix page :: int
  assume "page > 1"
  then show "always pages_ok
      (block [assign (\<lambda>st. st\<lparr>ik_page := Some (page - 1)\<rparr>), fetch_ik e, render_ik w]) pages_ok"
    by (intro always_weaken [OF pages_step_ik]) simp
next
  show "always pages_ok skip pages_ok" by (rule always_skip)
qed

lemma pages_next_ik:
  "always pages_ok
     (attr ''ik_page'' ik_page (\<lambda>page.
        block [assign (\<lambda>st. st\<lparr>ik_page := Some (page + 1)\<rparr>), fetch_ik e, render_ik w])) pages_ok"
proof (rule always_attr)
  fix page
  show "always (\<lambda>st. pages_ok st \<and> ik_page st = Some page)
          (block [assign (\<lambda>st. st\<lparr>ik_page := Some (page + 1)\<rparr>), fetch_ik e, render_ik w]) pages_ok"
    by (rule always_weaken [OF pages_step_ik]) (auto simp: pages_ok_def)
qed simp

lemma pages_prev_justia:
  "always pages_ok
     (attr ''justia_page'' justia_page (\<lambda>page.
        if page > 1 then
          block [assign (\<lambda>st. st\<lparr>justia_page := Some (page - 1)\<rparr>), fetch_justia e, render_justia w]
        else skip)) pages_ok"
proof (intro always_attr_inv always_if)
  fix page :: int
  assume "page > 1"
  then show "always pages_ok
      (block [assign (\<lambda>st. st\<lparr>justia_page := Some (page - 1)\<rparr>), fetch_justia e, render_justia w])
      pages_ok"
    by (intro always_weaken [OF pages_step_justia]) simp
next
  show "always pages_ok skip pages_ok" by (rule always_skip)
qed

lemma pages_next_justia:
  "always pages_ok
     (attr ''justia_page'' justia_page (\<lambda>page.
        block [assign (\<lambda>st. st\<lparr>justia_page := Some (page + 1)\<rparr>), fetch_justia e, render_justia w])) pages_ok"
proof (rule always_attr)
  fix page
  show "always (\<lambda>st. pages_ok st \<and> justia_page st = Some page)
          (block [assign (\<lambda>st. st\<lparr>justia_page := Some (page + 1)\<rparr>), fetch_justia e, render_justia w]) pages_ok"
    by (rule always_weaken [OF pages_step_justia]) (auto simp: pages_ok_def)
qed simp

lemma pages_display_ik: "always pages_ok (display_ik u e) pages_ok"
  unfolding display_ik_def
  by (intro always_if always_block_Cons always_block_Nil always_skip always_emit pages_render_ik
        pages_prev_ik pages_next_ik always_attr_inv)

lemma pages_display_justia: "always pages_ok (display_justia u e) pages_ok"
  unfolding display_justia_def
  by (intro always_if always_block_Cons always_block_Nil always_skip always_emit pages_render_justia
        pages_prev_justia pages_next_justia always_attr_inv)

lemma pages_display_al: "always pages_ok (display_al u) pages_ok"
  unfolding display_al_def
  by (intro always_intros)

lemma pages_display_cl: "always pages_ok (display_cl u) pages_ok"
  unfolding display_cl_def
  by (intro always_intros)

lemma pages_display: "always pages_ok (display u e) pages_ok"
  unfolding display_def
  by (intro always_if always_block_Cons always_block_Nil always_skip always_attr_inv
        pages_display_ik pages_display_al pages_display_cl pages_display_justia)

lemma pages_main: "always pages_ok (main u e) pages_ok"
  unfolding main_def
  by (intro always_if always_block_Cons always_block_Nil always_skip always_emit
        pages_init pages_on_search pages_display)

text \<open>
  C8. In every session state that runs of the script can reach from the empty one, the
  pagination counters \<open>ik_page\<close> and \<open>justia_page\<close>, once set, are at least 1. This holds
  also for the state a run leaves when it ends with an exception.
\<close>

theorem pagination_counters_positive:
  assumes "reachable st"
  shows "(case ik_page st of None \<Rightarrow> True | Some p \<Rightarrow> 1 \<le> p)
       \<and> (case justia_page st of None \<Rightarrow> True | Some p \<Rightarrow> 1 \<le> p)"
proof -
  from assms have "pages_ok st"
  proof (induction rule: reachable.induct)
    case start
    show ?case by (simp add: pages_ok_def empty_session_def)
  next
    case (run st u e evs st' r)
    with pages_main [of u e] show ?case by (auto simp: always_def)
  qed
  then show ?thesis by (simp add: pages_ok_def)
qed


text \<open>A search, then Next on Indian Kanoon; and Previous on page 1, which stays on page 1.\<close>

lemma second_run:
  "ik_page (fst (snd (main (sample_ui\<lparr>search_button := False, next_ik := True\<rparr>) online
       (fst (snd (main sample_ui online empty_session)))))) = Some 2
   \<and> justia_page (fst (snd (main (sample_ui\<lparr>search_button := False, next_ik := True\<rparr>) online
       (fst (snd (main sample_ui online empty_session)))))) = Some 1"
  by code_simp

lemma prev_on_first_page:
  "ik_page (fst (snd (main (sample_ui\<lparr>search_button := False, prev_ik := True\<rparr>) online
       (fst (snd (main sample_ui online empty_session)))))) = Some 1"
  by code_simp

theorem pagination_counters_positive_witness:
  "reachable (fst (snd (main (sample_ui\<lparr>search_button := False, next_ik := True\<rparr>) online
       (fst (snd (main sample_ui online empty_session))))))
   \<and> ik_page (fst (snd (main (sample_ui\<lparr>search_button := False, next_ik := True\<rparr>) online
       (fst (snd (main sample_ui online empty_session)))))) = Some 2
   \<and> justia_page (fst (snd (main (sample_ui\<lparr>search_button := False, next_ik := True\<rparr>) online
       (fst (snd (main sample_ui online empty_session)))))) = Some 1
   \<and> (case ik_page (fst (snd (main (sample_ui\<lparr>search_button := False, next_ik := True\<rparr>) online
       (fst (snd (main sample_ui online empty_session)))))) of None \<Rightarrow> True | Some p \<Rightarrow> 1 \<le> p)"
proof -
  have one: "reachable (fst (snd (main sample_ui online empty_session)))"
    by (rule reachable.run [OF reachable.start, of sample_ui online
          "fst (main sample_ui online empty_session)" _
          "snd (snd (main sample_ui online empty_session))"]) simp
  have two: "reachable (fst (snd (main (sample_ui\<lparr>search_button := False, next_ik := True\<rparr>) online
       (fst (snd (main sample_ui online empty_session))))))"
    by (rule reachable.run [OF one, of "sample_ui\<lparr>search_button := False, next_ik := True\<rparr>" online
          "fst (main (sample_ui\<lparr>search_button := False, next_ik := True\<rparr>) online
             (fst (snd (main sample_ui online empty_session))))" _
          "snd (snd (main (sample_ui\<lparr>search_button := False, next_ik := True\<rparr>) online
             (fst (snd (main sample_ui online empty_session)))))"]) simp
  from pagination_counters_positive [OF two] two second_run
  show ?thesis by (simp only: simp_thms)
qed

section \<open>A failing source\<close>

text \<open>
  C3 at its failing input: every source is selected and the network is down. The request
  of \<open>fetch_indian_kanoon_results\<close> raises, nothing catches it, and the run ends there: the
  other three sources are never asked and nothing is stored for them. With Indian Kanoon
  switched off, the same failures of the other sources are caught inside their routines
  and the run completes.
\<close>

theorem ik_failure_aborts_search:
  "fst (main sample_ui offline empty_session) =
     [Title ''Legal Search Dashboard'',
      Write ''This dashboard searches multiple legal databases for your query.'',
      HttpGet ''https://indiankanoon.org/search/?formInput=contract+law'' None]
   \<and> snd (snd (main sample_ui offline empty_session)) = Some (RequestException ''connection refused'')
   \<and> austlii_results (fst (snd (main sample_ui offline empty_session))) = None
   \<and> results_fetched (fst (snd (main sample_ui offline empty_session))) = Some False
   \<and> snd (snd (main (sample_ui\<lparr>search_ik := False\<rparr>) offline empty_session)) = None
   \<and> austlii_results (fst (snd (main (sample_ui\<lparr>search_ik := False\<rparr>) offline empty_session))) =
       Some [austlii_unavailable]"
  by code_simp

section \<open>What a statement leaves untouched\<close>

lemma keeps_skip: "keeps X skip"
  by (simp add: keeps_def skip_def)

lemma keeps_emit: "keeps X (emit ev)"
  by (simp add: keeps_def emit_def)

lemma keeps_assign: "(\<And>st. X (f st) = X st) \<Longrightarrow> keeps X (assign f)"
  by (auto simp: keeps_def assign_def)

lemma keeps_seq:
  assumes "keeps X a" and "keeps X b"
  shows "keeps X (seq a b)"
  unfolding keeps_def
proof (intro allI impI)
  fix st evs st' r
  assume run: "seq a b st = (evs, st', r)"
  obtain e1 s1 r1 where a: "a st = (e1, s1, r1)" by (cases "a st") auto
  with assms(1) have k1: "X s1 = X st" by (auto simp: keeps_def)
  show "X st' = X st"
  proof (cases r1)
    case None
    obtain e2 s2 r2 where b: "b s1 = (e2, s2, r2)" by (cases "b s1") auto
    with assms(2) have "X s2 = X s1" by (auto simp: keeps_def)
    with run a b None k1 show ?thesis by (simp add: seq_def)
  next
    case (Some err)
    with run a k1 show ?thesis by (simp add: seq_def)
  qed
qed

lemma keeps_block_Nil: "keeps X (block [])"
  by (simp add: keeps_skip)

lemma keeps_block_Cons: "keeps X a \<Longrightarrow> keeps X (block as) \<Longrightarrow> keeps X (block (a # as))"
  by (simp add: keeps_seq)

lemma keeps_if: "(c \<Longrightarrow> keeps X a) \<Longrightarrow> (\<not> c \<Longrightarrow> keeps X b) \<Longrightarrow> keeps X (if c then a else b)"
  by simp

lemma keeps_attr: "(\<And>v. keeps X (body v)) \<Longrightarrow> keeps X (attr name field body)"
  by (auto simp: keeps_def attr_def split: option.splits)

lemma keeps_store: "(\<And>rs st. X (upd rs st) = X st) \<Longrightarrow> keeps X (store upd fetched)"
  by (auto simp: keeps_def store_def split: prod.splits sum.splits)

lemma keeps_render_ik: "(\<And>st c. X (st\<lparr>ik_counts := c\<rparr>) = X st) \<Longrightarrow> keeps X (render_ik w)"
  unfolding render_ik_def
  by (intro keeps_attr)
     (auto simp: keeps_def format_indian_kanoon_results_def Let_def split: if_splits)

lemma keeps_render_justia: "(\<And>st c. X (st\<lparr>justia_counts := c\<rparr>) = X st) \<Longrightarrow> keeps X (render_justia w)"
  unfolding render_justia_def
  by (intro keeps_attr)
     (auto simp: keeps_def format_justia_results_def Let_def split: if_splits)

lemmas keeps_intros =
  keeps_block_Cons keeps_block_Nil keeps_if keeps_skip keeps_emit keeps_attr keeps_store
  keeps_assign keeps_render_ik keeps_render_justia

lemmas script_defs =
  search_ik_block_def search_al_block_def search_cl_block_def search_justia_block_def
  display_ik_def display_al_def display_cl_def display_justia_def fetch_ik_def fetch_justia_def

lemma returns_keeps: "keeps X a \<Longrightarrow> returns (\<lambda>st. X st = v) a (\<lambda>st. X st = v)"
  by (auto simp: keeps_def returns_def)

lemma returns_assign: "(\<And>st. Q (f st)) \<Longrightarrow> returns P (assign f) Q"
  by (simp add: returns_def assign_def)

lemma returns_seq:
  assumes "returns P a R" and "returns R b Q"
  shows "returns P (seq a b) Q"
  unfolding returns_def
proof (intro allI impI)
  fix st evs st'
  assume p: "P st" and run: "seq a b st = (evs, st', None)"
  obtain e1 s1 r1 where a: "a st = (e1, s1, r1)" by (cases "a st") auto
  obtain e2 s2 r2 where b: "b s1 = (e2, s2, r2)" by (cases "b s1") auto
  from run a b have "r1 = None" "r2 = None" "st' = s2"
    by (auto simp: seq_def split: option.splits)
  with a b assms p show "Q st'" by (auto simp: returns_def)
qed

lemma returns_any: "returns P a (\<lambda>st. True)"
  by (simp add: returns_def)

lemma returns_then: "returns P a Q \<Longrightarrow> returns Q (block as) Q \<Longrightarrow> returns P (block (a # as)) Q"
  by (simp add: returns_seq)

lemma returns_later: "returns (\<lambda>st. True) (block as) Q \<Longrightarrow> returns P (block (a # as)) Q"
  using returns_seq [OF returns_any] by simp

section \<open>A source that is not selected\<close>

lemma ik_off_search:
  assumes "\<not> search_ik u"
  shows "returns (\<lambda>st. True) (on_search u e) (\<lambda>st. ik_results st = Some [])"
  unfolding on_search_def
  apply (rule returns_later)
  apply (rule returns_then)
   apply (simp add: search_ik_block_def assms returns_assign)
  apply (rule returns_keeps)
  unfolding script_defs
  apply (intro keeps_intros)
                     apply simp_all
  done

lemma al_off_search:
  assumes "\<not> search_al u"
  shows "returns (\<lambda>st. True) (on_search u e) (\<lambda>st. austlii_results st = Some [])"
  unfolding on_search_def
  apply (rule returns_later)
  apply (rule returns_later)
  apply (rule returns_then)
   apply (simp add: search_al_block_def assms returns_assign)
  apply (rule returns_keeps)
  unfolding script_defs
  apply (intro keeps_intros)
                     apply simp_all
  done

lemma cl_off_search:
  assumes "\<not> search_cl u"
  shows "returns (\<lambda>st. True) (on_search u e) (\<lambda>st. canlii_results st = Some [])"
  unfolding on_search_def
  apply (rule returns_later)
  apply (rule returns_later)
  apply (rule returns_later)
  apply (rule returns_then)
   apply (simp add: search_cl_block_def assms returns_assign)
  apply (rule returns_keeps)
  unfolding script_defs
  apply (intro keeps_intros)
                     apply simp_all
  done

lemma justia_off_search:
  assumes "\<not> search_justia u"
  shows "returns (\<lambda>st. True) (on_search u e) (\<lambda>st. justia_results st = Some [])"
  unfolding on_search_def
  apply (rule returns_later)
  apply (rule returns_later)
  apply (rule returns_later)
  apply (rule returns_later)
  apply (rule returns_then)
   apply (simp add: search_justia_block_def assms returns_assign)
  apply (rule returns_keeps)
  apply (intro keeps_intros)
                     apply simp_all
  done

lemma ik_off_display: "\<not> search_ik u \<Longrightarrow> keeps ik_results (display u e)"
  unfolding display_def script_defs
  by (intro keeps_intros) simp_all

lemma al_off_display: "\<not> search_al u \<Longrightarrow> keeps austlii_results (display u e)"
  unfolding display_def script_defs
  by (intro keeps_intros) simp_all

lemma cl_off_display: "\<not> search_cl u \<Longrightarrow> keeps canlii_results (display u e)"
  unfolding display_def script_defs
  by (intro keeps_intros) simp_all

lemma justia_off_display: "\<not> search_justia u \<Longrightarrow> keeps justia_results (display u e)"
  unfolding display_def script_defs
  by (intro keeps_intros) simp_all

lemma main_establishes:
  assumes "search_button u"
    and "returns (\<lambda>st. True) (on_search u e) (\<lambda>st. X st = Some [])"
    and "keeps X (display u e)"
  shows "returns (\<lambda>st. True) (main u e) (\<lambda>st. X st = Some [])"
  unfolding main_def
  apply (rule returns_later)
  apply (rule returns_later)
  apply (rule returns_later)
  apply (rule returns_then)
   apply (simp add: assms(1,2))
  apply (rule returns_keeps)
  apply (intro keeps_block_Cons keeps_block_Nil assms(3))
  done


section \<open>Where the events of a run come from\<close>

lemma confined_skip: "confined E R skip"
  by (simp add: confined_def skip_def)

lemma confined_emit: "E ev \<Longrightarrow> confined E R (emit ev)"
  by (simp add: confined_def emit_def)

lemma confined_assign: "confined E R (assign f)"
  by (simp add: confined_def assign_def)

lemma confined_seq:
  assumes "confined E R a" and "confined E R b"
  shows "confined E R (seq a b)"
  unfolding confined_def
proof (intro allI impI)
  fix st evs st' r
  assume run: "seq a b st = (evs, st', r)"
  obtain e1 s1 r1 where a: "a st = (e1, s1, r1)" by (cases "a st") auto
  with assms(1) have c1: "list_all E e1" "\<forall>err. r1 = Some err \<longrightarrow> R err"
    by (auto simp: confined_def)
  show "list_all E evs \<and> (\<forall>err. r = Some err \<longrightarrow> R err)"
  proof (cases r1)
    case None
    obtain e2 s2 r2 where b: "b s1 = (e2, s2, r2)" by (cases "b s1") auto
    with assms(2) have "list_all E e2" "\<forall>err. r2 = Some err \<longrightarrow> R err"
      by (auto simp: confined_def)
    with run a b None c1 show ?thesis by (auto simp: seq_def)
  next
    case (Some err)
    with run a c1 show ?thesis by (auto simp: seq_def)
  qed
qed

lemma confined_block_Nil: "confined E R (block [])"
  by (simp add: confined_skip)

lemma confined_block_Cons: "confined E R a \<Longrightarrow> confined E R (block as) \<Longrightarrow> confined E R (block (a # as))"
  by (simp add: confined_seq)

lemma confined_if: "(c \<Longrightarrow> confined E R a) \<Longrightarrow> (\<not> c \<Longrightarrow> confined E R b) \<Longrightarrow> confined E R (if c then a else b)"
  by simp

lemma confined_attr:
  "R (AttributeError name) \<Longrightarrow> (\<And>v. confined E R (body v)) \<Longrightarrow> confined E R (attr name field body)"
  by (auto simp: confined_def attr_def split: option.splits)

lemma confined_store:
  "list_all E (fst fetched) \<Longrightarrow> (\<And>err. snd fetched = Inl err \<Longrightarrow> R err) \<Longrightarrow> confined E R (store upd fetched)"
  by (auto simp: confined_def store_def split: prod.splits sum.splits)

lemmas confined_intros =
  confined_block_Cons confined_block_Nil confined_if confined_skip confined_assign confined_attr

subsection \<open>The shape of what each routine shows\<close>

lemma format_ik_shape:
  "format_indian_kanoon_results rs p st = (t, st') \<Longrightarrow>
     t = ''No results found.'' \<or> startswith t ''### Indian Kanoon Results (Page ''"
  by (auto simp: format_indian_kanoon_results_def Let_def startswith_def split: if_splits)

lemma format_justia_shape:
  "format_justia_results rs p st = (t, st') \<Longrightarrow>
     t = ''No results found.'' \<or> startswith t ''### Justia Results (Page ''"
  by (auto simp: format_justia_results_def Let_def startswith_def split: if_splits)

lemma format_results_austlii: "startswith (format_results rs ''AustLII'') ''### AustLII Results:''"
  by (simp add: format_results_def Let_def startswith_def)

lemma format_results_canlii: "startswith (format_results rs ''CanLII'') ''### CanLII Results:''"
  by (simp add: format_results_def Let_def startswith_def)

lemma sibling_title_error: "sibling_title ns t = Inl err \<Longrightarrow> al_error err"
  by (induction ns t rule: sibling_title.induct) (auto split: if_splits)

lemma austlii_records_error: "austlii_records as = Inl err \<Longrightarrow> al_error err"
  by (induction as) (auto simp: Let_def split: if_splits sum.splits dest: sibling_title_error)

lemma canlii_records_error: "canlii_records as = Inl err \<Longrightarrow> cl_error err"
  by (induction as) (auto split: option.splits sum.splits)

lemma session_confined:
  assumes "\<forall>c\<in>set calls. C c" and "C Quit"
  shows "list_all (\<lambda>ev. (\<exists>c. ev = Browser c \<and> C c)
                     \<or> ev = Error (''Error fetching '' @ source @ '' results: '' @ fail_text run))
           (fst (browser_session source calls run))"
proof -
  have "set (attempted calls (fail_step run)) \<subseteq> set calls"
    by (auto simp: attempted_def split: option.splits dest: in_set_takeD)
  with assms(1) have "\<forall>c\<in>set (attempted calls (fail_step run)). C c" by blast
  with assms(2) show ?thesis
    by (auto simp: browser_session_def Let_def list_all_iff split: option.splits)
qed

lemma session_error:
  "snd (browser_session source calls run) = Inl err \<Longrightarrow> \<exists>msg. err = WebDriverException msg"
  by (auto simp: browser_session_def Let_def split: option.splits if_splits)


subsection \<open>The fetch routines\<close>

lemma ik_fetch_confined:
  assumes "search_ik u"
  shows "confined (of_selected u) (raised_by_selected u) (fetch_ik e)"
  unfolding fetch_ik_def
proof (intro confined_attr confined_store)
  fix kw page err
  show "list_all (of_selected u) (fst (fetch_indian_kanoon_results e kw page))"
    using assms by (simp add: ik_events of_selected_def)
  assume "snd (fetch_indian_kanoon_results e kw page) = Inl err"
  then have "ik_error err"
    by (auto simp: fetch_indian_kanoon_results_def Let_def split: http_outcome.splits if_splits)
  with assms show "raised_by_selected u err" by (simp add: raised_by_selected_def)
qed (simp_all add: raised_by_selected_def assms)

lemma al_fetch_confined:
  assumes "search_al u"
  shows "confined (of_selected u) (raised_by_selected u)
           (store upd (fetch_austlii_search_results e kw))"
proof (rule confined_store)
  show "list_all (of_selected u) (fst (fetch_austlii_search_results e kw))"
    using assms
    by (auto simp: fetch_austlii_search_results_def Let_def of_selected_def startswith_def
          split: http_outcome.splits sum.splits)
next
  fix err
  assume "snd (fetch_austlii_search_results e kw) = Inl err"
  then have "al_error err"
    by (auto simp: fetch_austlii_search_results_def Let_def
          split: http_outcome.splits if_splits sum.splits dest: austlii_records_error)
  with assms show "raised_by_selected u err" by (simp add: raised_by_selected_def)
qed

lemma cl_fetch_confined:
  assumes "search_cl u"
  shows "confined (of_selected u) (raised_by_selected u)
           (store upd (fetch_canlii_search_results e kw))"
proof (rule confined_store)
  have "list_all (\<lambda>ev. (\<exists>c. ev = Browser c \<and> cl_call c)
                     \<or> ev = Error (''Error fetching '' @ ''CanLII'' @ '' results: ''
                                     @ fail_text (canlii_browser e kw)))
           (fst (browser_session ''CanLII'' (canlii_calls kw) (canlii_browser e kw)))"
    by (rule session_confined) (simp_all add: canlii_calls_def)
  then have "list_all cl_event (fst (fetch_canlii_search_results e kw))"
    unfolding fst_fetch_canlii by (auto simp: list_all_iff startswith_def)
  with assms show "list_all (of_selected u) (fst (fetch_canlii_search_results e kw))"
    by (auto simp: list_all_iff of_selected_def)
next
  fix err
  assume "snd (fetch_canlii_search_results e kw) = Inl err"
  then have "cl_error err"
    by (auto simp: fetch_canlii_search_results_def split: prod.splits sum.splits
          dest: canlii_records_error session_error [OF sndI])
  with assms show "raised_by_selected u err" by (simp add: raised_by_selected_def)
qed

lemma justia_fetch_confined:
  assumes "search_justia u"
  shows "confined (of_selected u) (raised_by_selected u) (fetch_justia e)"
  unfolding fetch_justia_def
proof (intro confined_attr confined_store)
  fix kw page err
  have "list_all (\<lambda>ev. (\<exists>c. ev = Browser c \<and> justia_call c)
                     \<or> ev = Error (''Error fetching '' @ ''Justia'' @ '' results: ''
                                     @ fail_text (justia_browser e (justia_search_url e kw page))))
           (fst (browser_session ''Justia'' (justia_calls (justia_search_url e kw page))
                  (justia_browser e (justia_search_url e kw page))))"
    by (rule session_confined)
       (simp_all add: justia_calls_def justia_search_url_def startswith_def)
  then have "list_all justia_event (fst (fetch_justia_search_results e kw page))"
    unfolding fst_fetch_justia by (auto simp: list_all_iff startswith_def)
  with assms show "list_all (of_selected u) (fst (fetch_justia_search_results e kw page))"
    by (auto simp: list_all_iff of_selected_def)
  assume "snd (fetch_justia_search_results e kw page) = Inl err"
  then have "justia_error err"
    by (auto simp: fetch_justia_search_results_def split: prod.splits sum.splits
          dest: session_error [OF sndI])
  with assms show "raised_by_selected u err" by (simp add: raised_by_selected_def)
qed (simp_all add: raised_by_selected_def assms)


subsection \<open>The statements of the script\<close>

lemma ik_render_confined:
  assumes "search_ik u" and "w = Markdown \<or> w = Placeholder ''ik_container''"
  shows "confined (of_selected u) (raised_by_selected u) (render_ik w)"
  unfolding render_ik_def
proof (intro confined_attr)
  fix rs page
  show "confined (of_selected u) (raised_by_selected u)
          (\<lambda>st. case format_indian_kanoon_results rs page st of (text, st') \<Rightarrow> ([w text], st', None))"
    using assms
    by (auto simp: confined_def of_selected_def split: prod.splits dest!: format_ik_shape)
qed (simp_all add: raised_by_selected_def assms)

lemma justia_render_confined:
  assumes "search_justia u"
  shows "confined (of_selected u) (raised_by_selected u) (render_justia (Placeholder ''justia_container''))"
  unfolding render_justia_def
proof (intro confined_attr)
  fix rs page
  show "confined (of_selected u) (raised_by_selected u)
          (\<lambda>st. case format_justia_results rs page st of
                  (text, st') \<Rightarrow> ([Placeholder ''justia_container'' text], st', None))"
    using assms
    by (auto simp: confined_def of_selected_def split: prod.splits dest!: format_justia_shape)
qed (simp_all add: raised_by_selected_def assms)

lemma search_ik_confined: "confined (of_selected u) (raised_by_selected u) (search_ik_block u e)"
  unfolding search_ik_block_def
  by (intro confined_intros ik_fetch_confined)

lemma search_al_confined: "confined (of_selected u) (raised_by_selected u) (search_al_block u e)"
  unfolding search_al_block_def
  by (intro confined_intros al_fetch_confined) (simp_all add: raised_by_selected_def)

lemma search_cl_confined: "confined (of_selected u) (raised_by_selected u) (search_cl_block u e)"
  unfolding search_cl_block_def
  by (intro confined_intros cl_fetch_confined) (simp_all add: raised_by_selected_def)

lemma search_justia_confined: "confined (of_selected u) (raised_by_selected u) (search_justia_block u e)"
  unfolding search_justia_block_def
  by (intro confined_intros justia_fetch_confined)

lemma on_search_confined: "confined (of_selected u) (raised_by_selected u) (on_search u e)"
  unfolding on_search_def
  by (intro confined_intros search_ik_confined search_al_confined search_cl_confined
        search_justia_confined)

lemma display_ik_confined: "confined (of_selected u) (raised_by_selected u) (display_ik u e)"
  unfolding display_ik_def
  by (intro confined_intros confined_emit ik_fetch_confined ik_render_confined)
     (simp_all add: of_selected_def raised_by_selected_def startswith_def)

lemma display_al_confined: "confined (of_selected u) (raised_by_selected u) (display_al u)"
  unfolding display_al_def
  by (intro confined_intros confined_emit)
     (simp_all add: of_selected_def raised_by_selected_def format_results_austlii)

lemma display_cl_confined: "confined (of_selected u) (raised_by_selected u) (display_cl u)"
  unfolding display_cl_def
  by (intro confined_intros confined_emit)
     (simp_all add: of_selected_def raised_by_selected_def format_results_canlii)

lemma display_justia_confined: "confined (of_selected u) (raised_by_selected u) (display_justia u e)"
  unfolding display_justia_def
  by (intro confined_intros confined_emit justia_fetch_confined justia_render_confined)
     (simp_all add: of_selected_def raised_by_selected_def startswith_def)

lemma display_confined: "confined (of_selected u) (raised_by_selected u) (display u e)"
  unfolding display_def
  by (intro confined_intros display_ik_confined display_al_confined display_cl_confined
        display_justia_confined)
     (simp add: raised_by_selected_def)

lemma init_confined: "confined E R init_session"
  unfolding init_session_def
  by (intro confined_intros)

lemma main_confined: "confined (of_selected u) (raised_by_selected u) (main u e)"
  unfolding main_def
  by (intro confined_intros confined_emit init_confined on_search_confined display_confined)
     (simp_all add: of_selected_def)


lemma nothing_selected_events:
  assumes "\<not> search_ik u" "\<not> search_al u" "\<not> search_cl u" "\<not> search_justia u"
  shows "fst (main u e st) =
           [Title ''Legal Search Dashboard'',
            Write ''This dashboard searches multiple legal databases for your query.'']"
  using assms
  by (simp add: main_def init_session_def on_search_def display_def search_ik_block_def
        search_al_block_def search_cl_block_def search_justia_block_def display_ik_def
        display_al_def display_cl_def display_justia_def seq_def assign_def emit_def skip_def
        attr_def split: option.splits)

text \<open>
  C4, as amended. Whatever a run of the script renders, requests or raises belongs to the
  title and introduction or to a source whose checkbox is on. For a source whose checkbox
  is off, the run therefore renders nothing: no block of results, no \<open>No results found\<close>
  message and no error message, and its fetch routine makes no request. When nothing is
  selected, the run shows the title and the introduction only. A search that completes
  stores the empty list as the results of each source that is off.
\<close>

theorem disabled_source_is_skipped:
  assumes "main u e st = (evs, st', r)"
  shows "(\<forall>ev\<in>set evs. shown_always ev \<or> search_ik u \<and> ik_event ev \<or> search_al u \<and> al_event ev
                        \<or> search_cl u \<and> cl_event ev \<or> search_justia u \<and> justia_event ev)
       \<and> (\<forall>err. r = Some err \<longrightarrow>
             common_error err \<or> search_ik u \<and> ik_error err \<or> search_al u \<and> al_error err
             \<or> search_cl u \<and> cl_error err \<or> search_justia u \<and> justia_error err)
       \<and> (\<not> search_ik u \<longrightarrow>
             (\<forall>rs page s. Markdown (fst (format_indian_kanoon_results rs page s)) \<notin> set evs)
             \<and> (\<forall>t. Placeholder ''ik_container'' t \<notin> set evs)
             \<and> (\<forall>url. HttpGet url None \<notin> set evs)
             \<and> (search_button u \<and> r = None \<longrightarrow> ik_results st' = Some []))
       \<and> (\<not> search_al u \<longrightarrow>
             (\<forall>rs. Markdown (format_results rs ''AustLII'') \<notin> set evs)
             \<and> (\<forall>url. HttpGet url (Some 20) \<notin> set evs)
             \<and> (\<forall>msg. Error (''Error fetching AustLII results: '' @ msg) \<notin> set evs)
             \<and> (search_button u \<and> r = None \<longrightarrow> austlii_results st' = Some []))
       \<and> (\<not> search_cl u \<longrightarrow>
             (\<forall>rs. Markdown (format_results rs ''CanLII'') \<notin> set evs)
             \<and> Browser (Get ''https://www.canlii.org/en/'') \<notin> set evs
             \<and> (\<forall>msg. Error (''Error fetching CanLII results: '' @ msg) \<notin> set evs)
             \<and> (search_button u \<and> r = None \<longrightarrow> canlii_results st' = Some []))
       \<and> (\<not> search_justia u \<longrightarrow>
             (\<forall>t. Placeholder ''justia_container'' t \<notin> set evs)
             \<and> Markdown ''### Justia Results'' \<notin> set evs
             \<and> (\<forall>kw page. Browser (Get (justia_search_url e kw page)) \<notin> set evs)
             \<and> (\<forall>msg. Error (''Error fetching Justia results: '' @ msg) \<notin> set evs)
             \<and> (search_button u \<and> r = None \<longrightarrow> justia_results st' = Some []))
       \<and> (\<not> search_ik u \<and> \<not> search_al u \<and> \<not> search_cl u \<and> \<not> search_justia u \<longrightarrow>
             evs = [Title ''Legal Search Dashboard'',
                    Write ''This dashboard searches multiple legal databases for your query.''])"
proof -
  from main_confined [of u e] assms
  have ev: "\<forall>ev\<in>set evs. shown_always ev \<or> search_ik u \<and> ik_event ev \<or> search_al u \<and> al_event ev
                        \<or> search_cl u \<and> cl_event ev \<or> search_justia u \<and> justia_event ev"
    and er: "\<forall>err. r = Some err \<longrightarrow>
             common_error err \<or> search_ik u \<and> ik_error err \<or> search_al u \<and> al_error err
             \<or> search_cl u \<and> cl_error err \<or> search_justia u \<and> justia_error err"
    by (auto simp: confined_def list_all_iff of_selected_def raised_by_selected_def)
  have ik: "(\<forall>rs page s. Markdown (fst (format_indian_kanoon_results rs page s)) \<notin> set evs)
             \<and> (\<forall>t. Placeholder ''ik_container'' t \<notin> set evs)
             \<and> (\<forall>url. HttpGet url None \<notin> set evs)
             \<and> (search_button u \<and> r = None \<longrightarrow> ik_results st' = Some [])" if off: "\<not> search_ik u"
  proof (intro conjI allI impI)
    fix rs page s
    show "Markdown (fst (format_indian_kanoon_results rs page s)) \<notin> set evs"
      using ev off
      by (auto simp: format_indian_kanoon_results_def Let_def startswith_def split: if_splits)
  next
    fix t
    show "Placeholder ''ik_container'' t \<notin> set evs" using ev off by auto
  next
    fix url
    show "HttpGet url None \<notin> set evs" using ev off by auto
  next
    assume "search_button u \<and> r = None"
    with main_establishes [OF _ ik_off_search [OF off] ik_off_display [OF off], of e] assms
    show "ik_results st' = Some []" by (auto simp: returns_def)
  qed
  have al: "(\<forall>rs. Markdown (format_results rs ''AustLII'') \<notin> set evs)
             \<and> (\<forall>url. HttpGet url (Some 20) \<notin> set evs)
             \<and> (\<forall>msg. Error (''Error fetching AustLII results: '' @ msg) \<notin> set evs)
             \<and> (search_button u \<and> r = None \<longrightarrow> austlii_results st' = Some [])" if off: "\<not> search_al u"
  proof (intro conjI allI impI)
    fix rs
    show "Markdown (format_results rs ''AustLII'') \<notin> set evs"
      using ev off by (auto simp: format_results_def Let_def startswith_def split: if_splits)
  next
    fix url
    show "HttpGet url (Some 20) \<notin> set evs" using ev off by auto
  next
    fix msg
    show "Error (''Error fetching AustLII results: '' @ msg) \<notin> set evs"
      using ev off by (auto simp: startswith_def)
  next
    assume "search_button u \<and> r = None"
    with main_establishes [OF _ al_off_search [OF off] al_off_display [OF off], of e] assms
    show "austlii_results st' = Some []" by (auto simp: returns_def)
  qed
  have cl: "(\<forall>rs. Markdown (format_results rs ''CanLII'') \<notin> set evs)
             \<and> Browser (Get ''https://www.canlii.org/en/'') \<notin> set evs
             \<and> (\<forall>msg. Error (''Error fetching CanLII results: '' @ msg) \<notin> set evs)
             \<and> (search_button u \<and> r = None \<longrightarrow> canlii_results st' = Some [])" if off: "\<not> search_cl u"
  proof (intro conjI allI impI)
    fix rs
    show "Markdown (format_results rs ''CanLII'') \<notin> set evs"
      using ev off by (auto simp: format_results_def Let_def startswith_def split: if_splits)
  next
    show "Browser (Get ''https://www.canlii.org/en/'') \<notin> set evs"
      using ev off by (auto simp: startswith_def)
  next
    fix msg
    show "Error (''Error fetching CanLII results: '' @ msg) \<notin> set evs"
      using ev off by (auto simp: startswith_def)
  next
    assume "search_button u \<and> r = None"
    with main_establishes [OF _ cl_off_search [OF off] cl_off_display [OF off], of e] assms
    show "canlii_results st' = Some []" by (auto simp: returns_def)
  qed
  have ju: "(\<forall>t. Placeholder ''justia_container'' t \<notin> set evs)
             \<and> Markdown ''### Justia Results'' \<notin> set evs
             \<and> (\<forall>kw page. Browser (Get (justia_search_url e kw page)) \<notin> set evs)
             \<and> (\<forall>msg. Error (''Error fetching Justia results: '' @ msg) \<notin> set evs)
             \<and> (search_button u \<and> r = None \<longrightarrow> justia_results st' = Some [])" if off: "\<not> search_justia u"
  proof (intro conjI allI impI)
    fix t
    show "Placeholder ''justia_container'' t \<notin> set evs" using ev off by auto
  next
    show "Markdown ''### Justia Results'' \<notin> set evs"
      using ev off by (auto simp: startswith_def)
  next
    fix kw page
    show "Browser (Get (justia_search_url e kw page)) \<notin> set evs"
      using ev off by (auto simp: justia_search_url_def)
  next
    fix msg
    show "Error (''Error fetching Justia results: '' @ msg) \<notin> set evs"
      using ev off by (auto simp: startswith_def)
  next
    assume "search_button u \<and> r = None"
    with main_establishes [OF _ justia_off_search [OF off] justia_off_display [OF off], of e] assms
    show "justia_results st' = Some []" by (auto simp: returns_def)
  qed
  have none: "evs = [Title ''Legal Search Dashboard'',
                    Write ''This dashboard searches multiple legal databases for your query.'']"
    if "\<not> search_ik u \<and> \<not> search_al u \<and> \<not> search_cl u \<and> \<not> search_justia u"
    using nothing_selected_events [of u e st] that assms by simp
  show ?thesis
    apply (intro conjI)
          apply (rule ev)
         apply (rule er)
        apply (rule impI, rule ik, assumption)
       apply (rule impI, rule al, assumption)
      apply (rule impI, rule cl, assumption)
     apply (rule impI, rule ju, assumption)
    apply (rule impI, rule none, assumption)
    done
qed

text \<open>A search with AustLII switched off: the rendered blocks are those of the other three sources.\<close>

lemma austlii_off_run:
  "snd (snd (main (sample_ui\<lparr>search_al := False\<rparr>) online empty_session)) = None
   \<and> \<not> search_al (sample_ui\<lparr>search_al := False\<rparr>)
   \<and> search_button (sample_ui\<lparr>search_al := False\<rparr>)
   \<and> filter (\<lambda>ev. case ev of Markdown text \<Rightarrow> True | _ \<Rightarrow> False)
        (fst (main (sample_ui\<lparr>search_al := False\<rparr>) online empty_session)) =
       [Markdown (fst (format_indian_kanoon_results
                    [\<lparr>title = ''A v B'', link = ''https://indiankanoon.org/doc/1/'', details = Some []\<rparr>]
                    1 empty_session)),
        Markdown ''---'',
        Markdown (format_results [\<lparr>title = ''E v F'', link = ''https://www.canlii.org/en/ca/scc/doc/1'',
                                    details = None\<rparr>] ''CanLII''),
        Markdown ''---'',
        Markdown ''### Justia Results'']"
  by code_simp

theorem disabled_source_is_skipped_witness:
  "search_button (sample_ui\<lparr>search_al := False\<rparr>)
   \<and> \<not> search_al (sample_ui\<lparr>search_al := False\<rparr>)
   \<and> snd (snd (main (sample_ui\<lparr>search_al := False\<rparr>) online empty_session)) = None
   \<and> austlii_results (fst (snd (main (sample_ui\<lparr>search_al := False\<rparr>) online empty_session))) = Some []
   \<and> Markdown (format_results [] ''AustLII'')
       \<notin> set (fst (main (sample_ui\<lparr>search_al := False\<rparr>) online empty_session))
   \<and> HttpGet (austlii_search_url online ''contract law'') (Some 20)
       \<notin> set (fst (main (sample_ui\<lparr>search_al := False\<rparr>) online empty_session))"
proof -
  have n: "snd (snd (main (sample_ui\<lparr>search_al := False\<rparr>) online empty_session)) = None"
    using austlii_off_run by (rule conjunct1)
  have run: "main (sample_ui\<lparr>search_al := False\<rparr>) online empty_session =
      (fst (main (sample_ui\<lparr>search_al := False\<rparr>) online empty_session),
       fst (snd (main (sample_ui\<lparr>search_al := False\<rparr>) online empty_session)), None)"
    using n by (simp only: prod_eq_iff fst_conv snd_conv simp_thms)
  have b: "search_button (sample_ui\<lparr>search_al := False\<rparr>)"
    by (simp add: sample_ui_def)
  have off: "\<not> search_al (sample_ui\<lparr>search_al := False\<rparr>)"
    by (simp add: sample_ui_def)
  note t = disabled_source_is_skipped [OF run, THEN conjunct2, THEN conjunct2, THEN conjunct2,
      THEN conjunct1, THEN mp, OF off]
  have m: "Markdown (format_results [] ''AustLII'')
       \<notin> set (fst (main (sample_ui\<lparr>search_al := False\<rparr>) online empty_session))"
    using t [THEN conjunct1] by (rule spec)
  have g: "HttpGet (austlii_search_url online ''contract law'') (Some 20)
       \<notin> set (fst (main (sample_ui\<lparr>search_al := False\<rparr>) online empty_session))"
    using t [THEN conjunct2, THEN conjunct1] by (rule spec)
  have r: "austlii_results (fst (snd (main (sample_ui\<lparr>search_al := False\<rparr>) online empty_session))) = Some []"
    using t [THEN conjunct2, THEN conjunct2, THEN conjunct2] b by simp
  from b off n r m g show ?thesis by (intro conjI)
qed

text \<open>
  C4 as stated fails: a search with no source selected stores the empty list for each
  source and renders the title and the introduction only; no \<open>No results found\<close> message
  is shown for the sources that are switched off.
\<close>

theorem disabled_source_counterexample:
  "fst (main nothing_selected offline empty_session) =
     [Title ''Legal Search Dashboard'',
      Write ''This dashboard searches multiple legal databases for your query.'']
   \<and> snd (snd (main nothing_selected offline empty_session)) = None
   \<and> ik_results (fst (snd (main nothing_selected offline empty_session))) = Some []
   \<and> results_fetched (fst (snd (main nothing_selected offline empty_session))) = Some True"
  by code_simp

end
